theory Spec2Isabelle
  imports Main
begin

section \<open>Python values and exceptions\<close>

text \<open>
  The values that cross the boundaries of the program (a column of a database row, a
  field of a JSON record) are either \<^verbatim>\<open>None\<close> or a string. Python tests them by
  truthiness: \<^verbatim>\<open>None\<close> and the empty string are false.
\<close>

datatype pyval = PyNone | PyStr string

fun truthy :: "pyval \<Rightarrow> bool" where
  "truthy PyNone = False"
| "truthy (PyStr s) = (s \<noteq> [])"

text \<open>
  An exception carries its message (\<^verbatim>\<open>str(e)\<close>). \<open>RetryError\<close> is the exception the
  retry decorator raises once it gives up.
\<close>

datatype error = Exc string | RetryError string

fun str_of_error :: "error \<Rightarrow> string" where
  "str_of_error (Exc m) = m"
| "str_of_error (RetryError m) = m"

section \<open>The retry decorator\<close>

text \<open>
  Modelled from the spec: the decorator \<^verbatim>\<open>@retry(stop=stop_after_attempt(3),
  wait=wait_exponential(multiplier=1, min=4, max=10))\<close> comes from a library that is not
  among the sources. The spec (4.2, 7) describes it: up to 3 attempts, a delay that starts
  near 4 time units and doubles up to a ceiling near 10, applied only to exceptions raised
  by the underlying call; a returned value (\<^verbatim>\<open>None\<close> included) is handed back at once,
  and when the attempts are exhausted an exception surfaces to the caller. The numbers are
  the ones the decorators in the sources pass.

  The underlying call is given as a function of the attempt number (from 1): the outside
  world may answer differently each time. A run returns the outcome, the number of
  attempts made, and the delays slept between them.
\<close>

definition wait_exponential :: "nat \<Rightarrow> nat \<Rightarrow> nat \<Rightarrow> nat \<Rightarrow> nat" where
  "wait_exponential multiplier mn mx attempt_number =
     max mn (min (multiplier * 2 ^ (attempt_number - 1)) mx)"

function retry_from :: "nat \<Rightarrow> (nat \<Rightarrow> error + 'a) \<Rightarrow> nat \<Rightarrow> (error + 'a) \<times> nat \<times> nat list" where
  "retry_from stop_after_attempt call attempt_number =
     (case call attempt_number of
        Inr v \<Rightarrow> (Inr v, attempt_number, [])
      | Inl e \<Rightarrow>
          if attempt_number \<ge> stop_after_attempt
          then (Inl (RetryError (str_of_error e)), attempt_number, [])
          else (case retry_from stop_after_attempt call (Suc attempt_number) of
                  (r, n, ws) \<Rightarrow> (r, n, wait_exponential 1 4 10 attempt_number # ws)))"
  by pat_completeness auto
termination
  by (relation "measure (\<lambda>(stop_after_attempt, call, attempt_number). stop_after_attempt - attempt_number)") auto

definition retry :: "(nat \<Rightarrow> error + 'a) \<Rightarrow> (error + 'a) \<times> nat \<times> nat list" where
  "retry call = retry_from 3 call 1"

text \<open>
  The policy as the spec words it, for a run \<open>(r, n, ws)\<close> of a wrapper over \<open>call\<close>: at
  least one and at most 3 attempts; every attempt before the last raised (a retry follows
  an exception only, so a value, \<^verbatim>\<open>None\<close> included, ends the run at once); the run
  gives the last attempt's value, or an exception when the third attempt raised too; one
  delay between 4 and 10 lies between two attempts.
\<close>

definition retry_policy :: "(nat \<Rightarrow> error + 'a) \<Rightarrow> (error + 'a) \<times> nat \<times> nat list \<Rightarrow> bool" where
  "retry_policy call out =
     (case out of (r, n, ws) \<Rightarrow>
        1 \<le> n \<and> n \<le> 3
      \<and> (\<forall>j. 1 \<le> j \<and> j < n \<longrightarrow> isl (call j))
      \<and> (case call n of
            Inr v \<Rightarrow> r = Inr v
          | Inl e \<Rightarrow> n = 3 \<and> r = Inl (RetryError (str_of_error e)))
      \<and> length ws = n - 1
      \<and> (\<forall>w \<in> set ws. 4 \<le> w \<and> w \<le> 10))"

section \<open>fetcher.py\<close>

text \<open>The dataclass \<^verbatim>\<open>TranscriptData\<close>; Python does not enforce the field types, so a
  field holds whatever the row held.\<close>

record TranscriptData =
  transcript_id :: pyval
  account_name :: pyval
  account_number :: pyval
  speaker_name :: pyval
  speaker_email :: pyval
  cs_email :: pyval
  am_email :: pyval
  transcript_text :: pyval

text \<open>
  A row of the query's result: the eight selected columns, in the order of the
  \<^verbatim>\<open>SELECT\<close> (a non-empty tuple, so \<^verbatim>\<open>not row\<close> is false for it).
\<close>

type_synonym result_row = "pyval \<times> pyval \<times> pyval \<times> pyval \<times> pyval \<times> pyval \<times> pyval \<times> pyval"

text \<open>
  The database at one execution of the query: the connection or the query raises, or the
  database holds the rows of the join of transcripts, calls and accounts. The query keeps
  the rows \<^verbatim>\<open>WHERE t.transcript_id = %s\<close> for the identifier asked for, and
  \<^verbatim>\<open>fetchone()\<close> gives the first of them, or \<^verbatim>\<open>None\<close>.
\<close>

datatype db_result = DbRaise string | DbRows "result_row list"

definition fetchone :: "result_row list \<Rightarrow> string \<Rightarrow> result_row option" where
  "fetchone joined tid = find (\<lambda>row. fst row = PyStr tid) joined"

text \<open>The body of \<^verbatim>\<open>fetch_data\<close>, one attempt: the fields checked are \<^verbatim>\<open>row[1]\<close> to
  \<^verbatim>\<open>row[7]\<close>; every exception is logged and raised again.\<close>

definition fetch_data_body :: "db_result \<Rightarrow> string \<Rightarrow> error + TranscriptData option" where
  "fetch_data_body db tid =
     (case db of
        DbRaise m \<Rightarrow> Inl (Exc m)
      | DbRows joined \<Rightarrow>
          (case fetchone joined tid of
             None \<Rightarrow> Inr None
           | Some (r0, r1, r2, r3, r4, r5, r6, r7) \<Rightarrow>
               if \<not> list_all truthy [r1, r2, r3, r4, r5, r6, r7] then Inr None
               else Inr (Some \<lparr> transcript_id = r0, account_name = r1, account_number = r2,
                      speaker_name = r3, speaker_email = r4, cs_email = r5, am_email = r6,
                      transcript_text = r7 \<rparr>)))"

text \<open>\<^verbatim>\<open>fetch_data\<close> as decorated; \<open>db n\<close> is the database at attempt \<open>n\<close>.\<close>

definition fetch_data :: "(nat \<Rightarrow> db_result) \<Rightarrow> string \<Rightarrow> (error + TranscriptData option) \<times> nat \<times> nat list" where
  "fetch_data db tid = retry (\<lambda>n. fetch_data_body (db n) tid)"

section \<open>assistant_bridge.py\<close>

text \<open>
  The text of the assistant is a Python \<^verbatim>\<open>str\<close>: a sequence of Unicode code points.
  \<^verbatim>\<open>str.strip()\<close> removes, at both ends, the characters Python counts as whitespace:
  U+0009 to U+000D, U+001C to U+0020, U+0085, U+00A0, U+1680, U+2000 to U+200A, U+2028,
  U+2029, U+202F, U+205F and U+3000. (The runner and the later stages only test the
  summary for emptiness and pass it on; there it is kept as a \<open>string\<close>.)
\<close>

definition is_space :: "nat \<Rightarrow> bool" where
  "is_space c =
     ((0x09 \<le> c \<and> c \<le> 0x0D) \<or> (0x1C \<le> c \<and> c \<le> 0x20) \<or> c = 0x85 \<or> c = 0xA0 \<or> c = 0x1680
      \<or> (0x2000 \<le> c \<and> c \<le> 0x200A) \<or> c = 0x2028 \<or> c = 0x2029 \<or> c = 0x202F \<or> c = 0x205F
      \<or> c = 0x3000)"

definition strip :: "nat list \<Rightarrow> nat list" where
  "strip s = rev (dropWhile is_space (rev (dropWhile is_space s)))"

text \<open>
  What the assistant service does during one attempt of \<^verbatim>\<open>get_summary\<close>: creating the
  thread, the message and the run may raise; the \<open>i\<close>-th \<^verbatim>\<open>runs.retrieve\<close> raises or
  gives a status, after taking some time; reading the first message's text raises (no
  message, no text part) or gives \<^verbatim>\<open>None\<close> or a text.
\<close>

datatype run_poll = PollRaise string | PollStatus string

datatype messages_result = MessagesRaise string | MessagesValue "nat list option"

record assistant_api =
  create_raises :: "string option"
  retrieve :: "nat \<Rightarrow> run_poll"
  retrieve_latency :: "nat \<Rightarrow> nat"
  messages_list :: messages_result

text \<open>
  The wait loop of \<^verbatim>\<open>get_summary\<close>. Time is counted in whole units; \<open>elapsed\<close> is
  \<^verbatim>\<open>time.time() - start_time\<close> at the loop test, and one more turn costs the call's
  latency and the \<^verbatim>\<open>time.sleep(2)\<close>. The second component counts the calls of
  \<^verbatim>\<open>runs.retrieve\<close> made.
\<close>

function wait_for_run :: "int \<Rightarrow> assistant_api \<Rightarrow> int \<Rightarrow> nat \<Rightarrow> (error + nat list option) \<times> nat" where
  "wait_for_run timeout api elapsed i =
     (if elapsed < timeout then
        (case retrieve api i of
           PollRaise m \<Rightarrow> (Inl (Exc m), Suc i)
         | PollStatus status \<Rightarrow>
             if status = ''completed'' then
               (case messages_list api of
                  MessagesRaise m \<Rightarrow> (Inl (Exc m), Suc i)
                | MessagesValue assistant_response \<Rightarrow>
                    (case assistant_response of
                       None \<Rightarrow> (Inr None, Suc i)
                     | Some s \<Rightarrow>
                         if s \<noteq> [] \<and> strip s \<noteq> [] then (Inr (Some (strip s)), Suc i)
                         else (Inr None, Suc i)))
             else if status \<in> set [''failed'', ''cancelled'', ''expired''] then (Inr None, Suc i)
             else wait_for_run timeout api (elapsed + int (retrieve_latency api i) + 2) (Suc i))
      else (Inr None, i))"
  by pat_completeness auto
termination
  by (relation "measure (\<lambda>(timeout, api, elapsed, i). nat (timeout - elapsed))") auto

text \<open>The body of \<^verbatim>\<open>get_summary\<close>, one attempt: the message built from \<open>data\<close> does not
  decide the outcome; every exception is logged and raised again.\<close>

definition get_summary_body :: "int \<Rightarrow> assistant_api \<Rightarrow> TranscriptData \<Rightarrow> (error + nat list option) \<times> nat" where
  "get_summary_body timeout api data =
     (case create_raises api of
        Some m \<Rightarrow> (Inl (Exc m), 0)
      | None \<Rightarrow> wait_for_run timeout api 0 0)"

text \<open>\<^verbatim>\<open>get_summary\<close> as decorated; \<open>api n\<close> is the service's behaviour at attempt \<open>n\<close>.\<close>

definition get_summary :: "int \<Rightarrow> (nat \<Rightarrow> assistant_api) \<Rightarrow> TranscriptData \<Rightarrow> (error + nat list option) \<times> nat \<times> nat list" where
  "get_summary timeout api data = retry (\<lambda>n. fst (get_summary_body timeout (api n) data))"

text \<open>A poll that leaves the wait loop running: it gives a status that is none of the
  four terminal ones.\<close>

fun is_pending :: "run_poll \<Rightarrow> bool" where
  "is_pending (PollRaise m) = False"
| "is_pending (PollStatus status) =
     (status \<notin> set [''completed'', ''failed'', ''cancelled'', ''expired''])"

text \<open>The reading of \<open>elapsed\<close> at the loop test before the \<open>j\<close>-th poll, when the polls
  before it left the loop running: their latencies and the sleeps of 2 units.\<close>

fun elapsed_at :: "assistant_api \<Rightarrow> nat \<Rightarrow> int" where
  "elapsed_at api 0 = 0"
| "elapsed_at api (Suc j) = elapsed_at api j + int (retrieve_latency api j) + 2"

section \<open>email_dispatcher.py\<close>

text \<open>The body of \<^verbatim>\<open>send_email\<close>, one attempt: the SMTP session raises or the message is
  sent; and \<^verbatim>\<open>send_email\<close> as decorated.\<close>

definition send_email_body :: "string option \<Rightarrow> string \<Rightarrow> error + string" where
  "send_email_body smtp_raises to_email =
     (case smtp_raises of Some m \<Rightarrow> Inl (Exc m) | None \<Rightarrow> Inr (''EMAIL_SENT_'' @ to_email))"

definition send_email :: "(nat \<Rightarrow> string option) \<Rightarrow> string \<Rightarrow> (error + string) \<times> nat \<times> nat list" where
  "send_email smtp to_email = retry (\<lambda>n. send_email_body (smtp n) to_email)"


section \<open>drive_documenter.py\<close>

subsection \<open>The Drive and Docs services\<close>

text \<open>
  Modelled from the spec: the two Google services are external collaborators (6:
  folder/document lookup-or-create by name and parent, a full-content replace, an append
  at the true end offset). A file has an id, a name, a MIME type and parents; the service
  hands out fresh ids and lists files in the order of their creation. A document is its
  text; the body of a document always ends with a newline that is not part of the text,
  so a text of length \<open>n\<close> occupies the indices \<open>1..n\<close> and the last element of the body
  ends at index \<open>n + 2\<close>. \<open>faults\<close> schedules the failures of the coming API calls: each
  call consumes one entry and raises when it is \<open>True\<close>.
\<close>

record drive_file =
  file_id :: nat
  file_name :: string
  mimeType :: string
  parents :: "nat list"

record drive =
  files :: "drive_file list"
  documents :: "nat \<Rightarrow> string"
  next_id :: nat
  faults :: "bool list"

definition folder_mime :: string where
  "folder_mime = ''application/vnd.google-apps.folder''"

definition document_mime :: string where
  "document_mime = ''application/vnd.google-apps.document''"

definition execute :: "drive \<Rightarrow> (error + unit) \<times> drive" where
  "execute s =
     (case faults s of
        [] \<Rightarrow> (Inr (), s)
      | f # fs \<Rightarrow> (if f then Inl (Exc ''HttpError'') else Inr (), s\<lparr>faults := fs\<rparr>))"

text \<open>The sources write a name between single quotes into the query text without
  escaping it: a name holding a quote or a backslash does not give the query meant, and
  the call is taken to fail.\<close>

definition query_safe :: "string \<Rightarrow> bool" where
  "query_safe nm = (CHR 0x27 \<notin> set nm \<and> CHR 0x5C \<notin> set nm)"

definition matches :: "string \<Rightarrow> string \<Rightarrow> nat option \<Rightarrow> drive_file \<Rightarrow> bool" where
  "matches nm mt parent f =
     (file_name f = nm \<and> mimeType f = mt \<and>
      (case parent of None \<Rightarrow> True | Some p \<Rightarrow> p \<in> set (parents f)))"

definition files_list :: "string \<Rightarrow> string \<Rightarrow> nat option \<Rightarrow> drive \<Rightarrow> (error + drive_file list) \<times> drive" where
  "files_list nm mt parent s =
     (case execute s of
        (Inl e, s') \<Rightarrow> (Inl e, s')
      | (Inr _, s') \<Rightarrow>
          if query_safe nm then (Inr (filter (matches nm mt parent) (files s')), s')
          else (Inl (Exc ''Invalid query''), s'))"

definition files_create :: "string \<Rightarrow> string \<Rightarrow> nat list \<Rightarrow> drive \<Rightarrow> (error + drive_file) \<times> drive" where
  "files_create nm mt ps s =
     (case execute s of
        (Inl e, s') \<Rightarrow> (Inl e, s')
      | (Inr _, s') \<Rightarrow>
          (let f = \<lparr> file_id = next_id s', file_name = nm, mimeType = mt, parents = ps \<rparr>
           in (Inr f, s'\<lparr> files := files s' @ [f],
                          documents := (documents s')(next_id s' := []),
                          next_id := Suc (next_id s') \<rparr>)))"

text \<open>\<^verbatim>\<open>documents().get\<close>, read as far as the sources use it: the \<^verbatim>\<open>endIndex\<close> of the last
  element of the body.\<close>

definition documents_get :: "nat \<Rightarrow> drive \<Rightarrow> (error + nat) \<times> drive" where
  "documents_get doc_id s =
     (case execute s of
        (Inl e, s') \<Rightarrow> (Inl e, s')
      | (Inr _, s') \<Rightarrow> (Inr (length (documents s' doc_id) + 2), s'))"

datatype request = DeleteContentRange nat nat | InsertText nat string

fun apply_request :: "request \<Rightarrow> string \<Rightarrow> error + string" where
  "apply_request (DeleteContentRange startIndex endIndex) t =
     (if 1 \<le> startIndex \<and> startIndex < endIndex \<and> endIndex \<le> length t + 1
      then Inr (take (startIndex - 1) t @ drop (endIndex - 1) t)
      else Inl (Exc ''Invalid range''))"
| "apply_request (InsertText index content) t =
     (if 1 \<le> index \<and> index \<le> length t + 1
      then Inr (take (index - 1) t @ content @ drop (index - 1) t)
      else Inl (Exc ''Invalid index''))"

text \<open>\<^verbatim>\<open>documents().batchUpdate\<close>; every batch of the sources holds one request.\<close>

definition documents_batchUpdate :: "nat \<Rightarrow> request \<Rightarrow> drive \<Rightarrow> (error + unit) \<times> drive" where
  "documents_batchUpdate doc_id req s =
     (case execute s of
        (Inl e, s') \<Rightarrow> (Inl e, s')
      | (Inr _, s') \<Rightarrow>
          (case apply_request req (documents s' doc_id) of
             Inl e \<Rightarrow> (Inl e, s')
           | Inr t \<Rightarrow> (Inr (), s'\<lparr> documents := (documents s')(doc_id := t) \<rparr>)))"

subsection \<open>GoogleDriveDocumenter\<close>

text \<open>An exception ends the statements that follow it: \<open>and_then\<close> sequences two steps
  of a computation on the services' state.\<close>

definition and_then :: "('s \<Rightarrow> (error + 'a) \<times> 's) \<Rightarrow> ('a \<Rightarrow> 's \<Rightarrow> (error + 'b) \<times> 's) \<Rightarrow> 's \<Rightarrow> (error + 'b) \<times> 's" where
  "and_then m f s = (case m s of (Inl e, s') \<Rightarrow> (Inl e, s') | (Inr v, s') \<Rightarrow> f v s')"

definition clients_folder_name :: string where
  "clients_folder_name = ''Clientes''"

definition get_or_create_clients_folder :: "drive \<Rightarrow> (error + nat) \<times> drive" where
  "get_or_create_clients_folder =
     and_then (files_list clients_folder_name folder_mime None) (\<lambda>items.
       case items of
         f # _ \<Rightarrow> Pair (Inr (file_id f))
       | [] \<Rightarrow> and_then (files_create clients_folder_name folder_mime []) (\<lambda>folder.
                 Pair (Inr (file_id folder))))"

definition get_or_create_account_folder :: "string \<Rightarrow> drive \<Rightarrow> (error + nat) \<times> drive" where
  "get_or_create_account_folder account =
     and_then get_or_create_clients_folder (\<lambda>clients_folder_id.
     and_then (files_list account folder_mime (Some clients_folder_id)) (\<lambda>items.
       case items of
         f # _ \<Rightarrow> Pair (Inr (file_id f))
       | [] \<Rightarrow> and_then (files_create account folder_mime [clients_folder_id]) (\<lambda>folder.
                 Pair (Inr (file_id folder)))))"

definition get_or_create_doc :: "nat \<Rightarrow> string \<Rightarrow> drive \<Rightarrow> (error + nat) \<times> drive" where
  "get_or_create_doc folder_id doc_name =
     and_then (files_list doc_name document_mime (Some folder_id)) (\<lambda>items.
       case items of
         f # _ \<Rightarrow> Pair (Inr (file_id f))
       | [] \<Rightarrow> and_then (files_create doc_name document_mime [folder_id]) (\<lambda>doc.
                 Pair (Inr (file_id doc))))"

definition overwrite_doc :: "nat \<Rightarrow> string \<Rightarrow> drive \<Rightarrow> (error + unit) \<times> drive" where
  "overwrite_doc doc_id content =
     and_then (documents_get doc_id) (\<lambda>last_end.
     and_then (\<lambda>s. let end_index = last_end - 1 in
                    if end_index > 1
                    then documents_batchUpdate doc_id (DeleteContentRange 1 end_index) s
                    else (Inr (), s)) (\<lambda>_.
     documents_batchUpdate doc_id (InsertText 1 content)))"

definition append_to_doc :: "nat \<Rightarrow> string \<Rightarrow> drive \<Rightarrow> (error + unit) \<times> drive" where
  "append_to_doc doc_id content =
     and_then (documents_get doc_id) (\<lambda>last_end.
     documents_batchUpdate doc_id (InsertText (last_end - 1) content))"

text \<open>File ids are written in decimal where a URL needs one.\<close>

function digits :: "nat \<Rightarrow> string" where
  "digits n = (if n < 10 then [''0123456789'' ! n]
               else digits (n div 10) @ [''0123456789'' ! (n mod 10)])"
  by pat_completeness auto
termination
  by (relation "measure id") auto

definition get_doc_url :: "nat \<Rightarrow> string" where
  "get_doc_url doc_id = ''https://docs.google.com/document/d/'' @ digits doc_id @ ''/edit''"

text \<open>The entry appended to the log; \<open>timestamp\<close> is \<^verbatim>\<open>datetime.now()\<close> as formatted by
  \<^verbatim>\<open>strftime\<close>.\<close>

definition log_entry :: "string \<Rightarrow> string \<Rightarrow> string" where
  "log_entry timestamp summary =
     [CHR 0x0A] @ ''--- '' @ timestamp @ '' ---'' @ [CHR 0x0A] @ summary @ [CHR 0x0A]"

text \<open>\<^verbatim>\<open>update_drive_docs\<close>: no decorator; an exception of any step is logged and raised
  again.\<close>

definition update_drive_docs :: "string \<Rightarrow> string \<Rightarrow> string \<Rightarrow> drive \<Rightarrow> (error + string \<times> string) \<times> drive" where
  "update_drive_docs account summary timestamp =
     and_then (get_or_create_account_folder account) (\<lambda>folder_id.
     and_then (get_or_create_doc folder_id ''Call Summary'') (\<lambda>call_doc_id.
     and_then (overwrite_doc call_doc_id summary) (\<lambda>_.
     and_then (get_or_create_doc folder_id ''Summary Log'') (\<lambda>log_doc_id.
     and_then (append_to_doc log_doc_id (log_entry timestamp summary)) (\<lambda>_.
     Pair (Inr (get_doc_url call_doc_id, get_doc_url log_doc_id)))))))"


subsection \<open>States of the Drive\<close>





section \<open>The shared work queue\<close>

text \<open>\<^verbatim>\<open>queue.Queue\<close>, unbounded: the items in order, and the count of tasks put and not
  yet marked done, which \<^verbatim>\<open>join()\<close> waits on.\<close>

record queue =
  items :: "string list"
  unfinished_tasks :: nat

definition put :: "string \<Rightarrow> queue \<Rightarrow> queue" where
  "put x q = q\<lparr> items := items q @ [x], unfinished_tasks := Suc (unfinished_tasks q) \<rparr>"

definition task_done :: "queue \<Rightarrow> queue" where
  "task_done q = q\<lparr> unfinished_tasks := unfinished_tasks q - 1 \<rparr>"

section \<open>listener.py\<close>

text \<open>A naive \<^verbatim>\<open>datetime\<close>: the day (as a day number) and the microsecond of the day.
  Comparison is by day, then by time; adding whole days leaves the time alone.\<close>

record datetime =
  date :: int
  time_of_day :: int

definition dt_less :: "datetime \<Rightarrow> datetime \<Rightarrow> bool" where
  "dt_less a b = (date a < date b \<or> (date a = date b \<and> time_of_day a < time_of_day b))"

definition add_days :: "datetime \<Rightarrow> int \<Rightarrow> datetime" where
  "add_days d n = d\<lparr> date := date d + n \<rparr>"

text \<open>\<^verbatim>\<open>(b - a).total_seconds()\<close>, in microseconds.\<close>

definition micros_between :: "datetime \<Rightarrow> datetime \<Rightarrow> int" where
  "micros_between a b = (date b - date a) * 86400000000 + (time_of_day b - time_of_day a)"

text \<open>\<^verbatim>\<open>datetime.time(hour, minute)\<close> raises \<^verbatim>\<open>ValueError\<close> outside 0..23 and 0..59.\<close>

definition dt_time :: "int \<Rightarrow> int \<Rightarrow> error + int" where
  "dt_time hour minute =
     (if 0 \<le> hour \<and> hour \<le> 23 \<and> 0 \<le> minute \<and> minute \<le> 59
      then Inr ((hour * 3600 + minute * 60) * 1000000)
      else Inl (Exc ''ValueError''))"

definition combine :: "int \<Rightarrow> int \<Rightarrow> datetime" where
  "combine d t = \<lparr> date = d, time_of_day = t \<rparr>"

text \<open>The listener: its fields, and \<open>next_run\<close>, the local variable of
  \<^verbatim>\<open>start_listening\<close> that lives across the turns of its loop.\<close>

record GongListener =
  processed_ids :: "string set"
  run_hour :: int
  run_minute :: int
  idle_sleep_seconds :: int
  listener_running :: bool
  next_run :: datetime

text \<open>A record of the discovery response is a dictionary; \<^verbatim>\<open>row.get(k)\<close> is \<^verbatim>\<open>None\<close>
  for a missing key.\<close>

type_synonym row = "string \<rightharpoonup> pyval"

definition row_get :: "row \<Rightarrow> string \<Rightarrow> pyval" where
  "row_get r k = (case r k of None \<Rightarrow> PyNone | Some v \<Rightarrow> v)"

text \<open>What \<^verbatim>\<open>poll_gong_transcripts\<close> gives the loop: the rows (the empty list after a
  \<^verbatim>\<open>RequestException\<close>, which it catches), or another exception, which escapes it.\<close>

datatype poll_result = PollRows "row list" | PollError string

text \<open>The start of \<^verbatim>\<open>start_listening\<close>, up to the loop.\<close>

definition start_listening_init :: "datetime \<Rightarrow> GongListener \<Rightarrow> error + GongListener" where
  "start_listening_init now l =
     (case dt_time (run_hour l) (run_minute l) of
        Inl e \<Rightarrow> Inl e
      | Inr t \<Rightarrow>
          (let scheduled_today = combine (date now) t
           in Inr (l\<lparr> listener_running := True,
                       next_run := (if dt_less now scheduled_today then scheduled_today
                                    else add_days scheduled_today 1) \<rparr>)))"

text \<open>The \<^verbatim>\<open>for row in new_rows\<close> loop, on the set of seen ids and the queue.\<close>

fun start_listening_rows :: "row list \<Rightarrow> string set \<times> queue \<Rightarrow> string set \<times> queue" where
  "start_listening_rows [] sq = sq"
| "start_listening_rows (r # new_rows) (seen, q) =
     (case row_get r ''transcript_id'' of
        PyNone \<Rightarrow> start_listening_rows new_rows (seen, q)
      | PyStr tid \<Rightarrow>
          if tid \<noteq> [] \<and> tid \<notin> seen
          then start_listening_rows new_rows (insert tid seen, put tid q)
          else start_listening_rows new_rows (seen, q))"

text \<open>One turn of the \<^verbatim>\<open>while self.running\<close> loop, with the clock's reading and the
  answer of the poll (read only when the turn polls). The first component says what the
  turn did: the loop had ended, it slept (for so many microseconds), it polled, or it
  caught an exception (and slept 30 seconds).\<close>

datatype turn = Ended | Slept int | Polled | Caught

definition start_listening_turn :: "datetime \<Rightarrow> poll_result \<Rightarrow> GongListener \<times> queue \<Rightarrow> turn \<times> GongListener \<times> queue" where
  "start_listening_turn now poll lq =
     (case lq of (l, q) \<Rightarrow>
        if \<not> listener_running l then (Ended, l, q)
        else if dt_less now (next_run l)
        then (Slept (max (min (micros_between now (next_run l)) (idle_sleep_seconds l * 1000000)) 1000000), l, q)
        else (case poll of
                PollError m \<Rightarrow> (Caught, l, q)
              | PollRows new_rows \<Rightarrow>
                  (case start_listening_rows new_rows (processed_ids l, q) of
                     (seen, q') \<Rightarrow>
                       (Polled, l\<lparr> processed_ids := seen, next_run := add_days (next_run l) 1 \<rparr>, q'))))"

definition stop_listening :: "GongListener \<Rightarrow> GongListener" where
  "stop_listening l = l\<lparr> listener_running := False \<rparr>"

text \<open>The loop of \<^verbatim>\<open>start_listening\<close> over a process lifetime: its turns, each with the
  clock's reading and the answer the poll would give.\<close>

fun start_listening_loop :: "(datetime \<times> poll_result) list \<Rightarrow> GongListener \<times> queue \<Rightarrow> GongListener \<times> queue" where
  "start_listening_loop [] lq = lq"
| "start_listening_loop ((now, poll) # later) lq =
     start_listening_loop later (snd (start_listening_turn now poll lq))"

section \<open>orchestrator.py\<close>

text \<open>A structured log record, without its timestamp: the identifier, the status, the
  module and the error text when given and not empty, and the extra fields.\<close>

datatype kwval = KInt int | KStr string | KVal pyval

record log_data =
  log_transcript_id :: string
  log_status :: string
  log_module :: "string option"
  log_error :: "string option"
  log_kwargs :: "(string \<times> kwval) list"

text \<open>The orchestrator: the queue it shares with the listener, its flag, its bound on
  attempts, the lines written to the JSON log, and the metrics.\<close>

record Orchestrator =
  event_queue :: queue
  running :: bool
  max_retries :: int
  json_log :: "log_data list"
  success_counter :: nat
  error_counter :: "string \<times> string \<Rightarrow> nat"
  processing_time :: "nat list"
  in_flight_gauge :: int
  queue_size_gauge :: nat

text \<open>What the four stage objects answer during one call of \<^verbatim>\<open>process_transcript\<close>
  (each is called at most once there): \<^verbatim>\<open>fetcher.fetch_data\<close>, \<^verbatim>\<open>assistant.get_summary\<close>,
  \<^verbatim>\<open>drive_documenter.update_drive_docs\<close>, \<^verbatim>\<open>email_dispatcher.send_emails\<close>; and the
  seconds the clock measures for the run.\<close>

record stages =
  fetcher :: "string \<Rightarrow> error + TranscriptData option"
  assistant :: "TranscriptData \<Rightarrow> error + string option"
  drive_documenter :: "pyval \<Rightarrow> string \<Rightarrow> error + string \<times> string"
  email_dispatcher :: "TranscriptData \<Rightarrow> string \<Rightarrow> string \<times> string \<Rightarrow> error + string \<times> string"
  seconds :: nat

definition signal_handler :: "Orchestrator \<Rightarrow> Orchestrator" where
  "signal_handler st = st\<lparr> running := False \<rparr>"

definition log_structured :: "string \<Rightarrow> string \<Rightarrow> string option \<Rightarrow> string option \<Rightarrow> (string \<times> kwval) list \<Rightarrow> Orchestrator \<Rightarrow> Orchestrator" where
  "log_structured tid status module err kwargs st =
     st\<lparr> json_log := json_log st @
           [\<lparr> log_transcript_id = tid, log_status = status,
              log_module = (if module = Some [] then None else module),
              log_error = (if err = Some [] then None else err),
              log_kwargs = kwargs \<rparr>] \<rparr>"

definition error_counter_inc :: "string \<Rightarrow> string \<Rightarrow> Orchestrator \<Rightarrow> Orchestrator" where
  "error_counter_inc module error_type st =
     st\<lparr> error_counter := (error_counter st)((module, error_type) := Suc (error_counter st (module, error_type))) \<rparr>"

definition should_retry :: "Orchestrator \<Rightarrow> string \<Rightarrow> int \<Rightarrow> bool" where
  "should_retry st tid attempt = (attempt < max_retries st)"

definition requeue_transcript :: "string \<Rightarrow> Orchestrator \<Rightarrow> Orchestrator" where
  "requeue_transcript tid st = st\<lparr> event_queue := put tid (event_queue st) \<rparr>"

text \<open>The log records that report a failure, by their status tags.\<close>

definition failed_entries :: "log_data list \<Rightarrow> log_data list" where
  "failed_entries entries =
     filter (\<lambda>e. log_status e \<in> set [''FAILED_FETCH'', ''FAILED_OAI'', ''PIPELINE_ERROR'',
                                       ''PIPELINE_FAILED_FINAL'']) entries"

text \<open>The \<^verbatim>\<open>try\<close> block of \<^verbatim>\<open>process_transcript\<close>: it returns a boolean or ends in an
  exception. \<^verbatim>\<open>not summary\<close> holds for \<^verbatim>\<open>None\<close> and for the empty string.\<close>

definition failed_fetch :: "string \<Rightarrow> Orchestrator \<Rightarrow> Orchestrator" where
  "failed_fetch tid st =
     error_counter_inc ''fetcher'' ''no_data''
       (log_structured tid ''FAILED_FETCH'' (Some ''fetcher'') None [] st)"

definition failed_oai :: "string \<Rightarrow> Orchestrator \<Rightarrow> Orchestrator" where
  "failed_oai tid st =
     error_counter_inc ''assistant'' ''no_summary''
       (log_structured tid ''FAILED_OAI'' (Some ''assistant'') None [] st)"

definition pipeline_success :: "stages \<Rightarrow> string \<Rightarrow> Orchestrator \<Rightarrow> Orchestrator" where
  "pipeline_success sg tid st =
     log_structured tid ''PIPELINE_SUCCESS'' None None
         [(''processing_time_seconds'', KInt (int (seconds sg)))]
       (st\<lparr> processing_time := processing_time st @ [seconds sg],
            success_counter := Suc (success_counter st) \<rparr>)"

definition process_transcript_try :: "stages \<Rightarrow> string \<Rightarrow> int \<Rightarrow> Orchestrator \<Rightarrow> (error + bool) \<times> Orchestrator" where
  "process_transcript_try sg tid attempt st0 =
     (let st1 = st0\<lparr> in_flight_gauge := in_flight_gauge st0 + 1 \<rparr>;
          st2 = log_structured tid ''PROCESSING_STARTED'' None None [(''attempt'', KInt attempt)] st1
      in case fetcher sg tid of
           Inl e \<Rightarrow> (Inl e, st2)
         | Inr None \<Rightarrow> (Inr False, failed_fetch tid st2)
         | Inr (Some data) \<Rightarrow>
             (let st3 = log_structured tid ''FETCH_SUCCESS'' (Some ''fetcher'') None
                          [(''account_name'', KVal (account_name data))] st2
              in case assistant sg data of
                   Inl e \<Rightarrow> (Inl e, st3)
                 | Inr None \<Rightarrow> (Inr False, failed_oai tid st3)
                 | Inr (Some summary) \<Rightarrow>
                     if summary = [] then (Inr False, failed_oai tid st3)
                     else
                       (let st4 = log_structured tid ''SUMMARY_SUCCESS'' (Some ''assistant'') None [] st3
                        in case drive_documenter sg (account_name data) summary of
                             Inl e \<Rightarrow> (Inl e, st4)
                           | Inr doc_links \<Rightarrow>
                               (let st5 = log_structured tid ''DRIVE_SUCCESS'' (Some ''drive_documenter'') None
                                            [(''call_doc_url'', KStr (fst doc_links)),
                                             (''log_doc_url'', KStr (snd doc_links))] st4
                                in case email_dispatcher sg data summary doc_links of
                                     Inl e \<Rightarrow> (Inl e, st5)
                                   | Inr email_status \<Rightarrow>
                                       (let st6 = log_structured tid ''EMAIL_SUCCESS'' (Some ''email_dispatcher'') None
                                                    [(''cs_status'', KStr (fst email_status)),
                                                     (''am_status'', KStr (snd email_status))] st5
                                        in (Inr True, pipeline_success sg tid st6))))))"

text \<open>The \<^verbatim>\<open>except Exception\<close> block.\<close>

definition process_transcript_except :: "error \<Rightarrow> string \<Rightarrow> int \<Rightarrow> Orchestrator \<Rightarrow> Orchestrator" where
  "process_transcript_except e tid attempt st =
     (let error_msg = str_of_error e;
          st1 = log_structured tid ''PIPELINE_ERROR'' None (Some error_msg) [(''attempt'', KInt attempt)] st;
          st2 = error_counter_inc ''orchestrator'' ''general'' st1
      in if should_retry st2 tid attempt then requeue_transcript tid st2
         else log_structured tid ''PIPELINE_FAILED_FINAL'' None None [(''max_attempts'', KInt attempt)] st2)"

text \<open>\<^verbatim>\<open>process_transcript\<close>: the \<^verbatim>\<open>try\<close>, the handler, and the \<^verbatim>\<open>finally\<close>, which takes
  the item off the in-flight gauge on every path.\<close>

definition process_transcript :: "stages \<Rightarrow> string \<Rightarrow> int \<Rightarrow> Orchestrator \<Rightarrow> bool \<times> Orchestrator" where
  "process_transcript sg tid attempt st =
     (case process_transcript_try sg tid attempt st of
        (Inr ok, st') \<Rightarrow> (ok, st'\<lparr> in_flight_gauge := in_flight_gauge st' - 1 \<rparr>)
      | (Inl e, st') \<Rightarrow>
          (let st'' = process_transcript_except e tid attempt st'
           in (False, st''\<lparr> in_flight_gauge := in_flight_gauge st'' - 1 \<rparr>)))"

text \<open>One turn of the \<^verbatim>\<open>while self.running\<close> loop of \<^verbatim>\<open>run_pipeline_worker\<close>; an empty
  queue makes \<^verbatim>\<open>get(timeout=5)\<close> raise \<^verbatim>\<open>queue.Empty\<close>, and the loop goes on. The call
  of \<^verbatim>\<open>process_transcript\<close> passes the identifier alone.\<close>

definition run_pipeline_worker_turn :: "stages \<Rightarrow> Orchestrator \<Rightarrow> Orchestrator" where
  "run_pipeline_worker_turn sg st =
     (if \<not> running st then st
      else
        (let st1 = st\<lparr> queue_size_gauge := length (items (event_queue st)) \<rparr>
         in case items (event_queue st1) of
              [] \<Rightarrow> st1
            | tid # rest \<Rightarrow>
                (let st2 = st1\<lparr> event_queue := (event_queue st1)\<lparr> items := rest \<rparr> \<rparr>;
                     st3 = snd (process_transcript sg tid 1 st2)
                 in st3\<lparr> event_queue := task_done (event_queue st3) \<rparr>)))"

text \<open>Turns of the worker, one answer of the stages for each.\<close>

fun run_pipeline_worker :: "stages list \<Rightarrow> Orchestrator \<Rightarrow> Orchestrator" where
  "run_pipeline_worker [] st = st"
| "run_pipeline_worker (sg # later) st = run_pipeline_worker later (run_pipeline_worker_turn sg st)"

text \<open>\<^verbatim>\<open>stop\<close> runs in the main thread once the worker loop has returned: it clears the
  flag and joins the queue. Nothing marks a task done from then on, so the join returns
  when no task is unfinished and never otherwise (\<open>None\<close>).\<close>

definition stop :: "Orchestrator \<Rightarrow> Orchestrator option" where
  "stop st =
     (let st1 = st\<lparr> running := False \<rparr>
      in if unfinished_tasks (event_queue st1) = 0 then Some st1 else None)"

section \<open>The two threads\<close>

text \<open>
  The orchestrator object and the listener object; the queue of the orchestrator is the
  one handed to the listener thread. The threads take turns in some order, and a signal
  may arrive between turns: a run of the process is a list of events.
\<close>

record system =
  orchestrator :: Orchestrator
  listener :: GongListener

datatype event = Signal | WorkerTurn stages | ListenerTurn datetime poll_result

fun step :: "event \<Rightarrow> system \<Rightarrow> system" where
  "step Signal sys = sys\<lparr> orchestrator := signal_handler (orchestrator sys) \<rparr>"
| "step (WorkerTurn sg) sys = sys\<lparr> orchestrator := run_pipeline_worker_turn sg (orchestrator sys) \<rparr>"
| "step (ListenerTurn now poll) sys =
     (case start_listening_turn now poll (listener sys, event_queue (orchestrator sys)) of
        (t, l, q) \<Rightarrow> sys\<lparr> orchestrator := (orchestrator sys)\<lparr> event_queue := q \<rparr>, listener := l \<rparr>)"

fun run :: "event list \<Rightarrow> system \<Rightarrow> system" where
  "run [] sys = sys"
| "run (e # es) sys = run es (step e sys)"


section \<open>Example inputs\<close>

text \<open>A database with a row of another transcript, the full row of T-1, and a row of T-2
  whose CS email is empty.\<close>

definition joined0 :: "result_row list" where
  "joined0 =
     [(PyStr ''T-0'', PyStr ''Beta'', PyStr ''7'', PyStr ''Bob'', PyStr ''bob@x'', PyStr ''cs@y'',
       PyStr ''am@y'', PyStr ''hi''),
      (PyStr ''T-1'', PyStr ''Acme'', PyStr ''42'', PyStr ''Ann'', PyStr ''ann@x'', PyStr ''cs@x'',
       PyStr ''am@x'', PyStr ''hello''),
      (PyStr ''T-2'', PyStr ''Acme'', PyStr ''42'', PyStr ''Ann'', PyStr ''ann@x'', PyStr [],
       PyStr ''am@x'', PyStr ''hello'')]"

text \<open>A database that times out at the first attempt and holds these rows from then on.\<close>

definition db_late :: "nat \<Rightarrow> db_result" where
  "db_late n = (if n < 2 then DbRaise ''timeout'' else DbRows joined0)"

definition empty_queue :: queue where
  "empty_queue = \<lparr> items = [], unfinished_tasks = 0 \<rparr>"

definition id_row :: "string \<Rightarrow> row" where
  "id_row tid = [''transcript_id'' \<mapsto> PyStr tid]"

definition listener0 :: GongListener where
  "listener0 = \<lparr> processed_ids = {}, run_hour = 7, run_minute = 0, idle_sleep_seconds = 300,
                  listener_running = False, next_run = \<lparr> date = 0, time_of_day = 0 \<rparr> \<rparr>"

definition acme_data :: TranscriptData where
  "acme_data = \<lparr> transcript_id = PyStr ''T-100'', account_name = PyStr ''Acme'',
       account_number = PyStr ''42'', speaker_name = PyStr ''Ann'',
       speaker_email = PyStr ''ann@x'', cs_email = PyStr ''cs@x'', am_email = PyStr ''am@x'',
       transcript_text = PyStr ''hello'' \<rparr>"

text \<open>An assistant whose run fails at the third poll; one that completes with a text of
  a space (U+0020), a no-break space (U+00A0) and an em space (U+2003); one that never
  leaves \<^verbatim>\<open>in_progress\<close>; one whose polls take 58 units each and whose run completes
  at the third poll; one that completes at the second poll with the text \<^verbatim>\<open>Sum\<close> (U+0053,
  U+0075, U+006D) between a space and a line feed; one whose run cannot be created.\<close>

definition api_failed :: assistant_api where
  "api_failed = \<lparr> create_raises = None,
       retrieve = (\<lambda>i. if i < 2 then PollStatus ''in_progress'' else PollStatus ''failed''),
       retrieve_latency = (\<lambda>i. 0), messages_list = MessagesRaise ''no message'' \<rparr>"

definition api_blank :: assistant_api where
  "api_blank = \<lparr> create_raises = None, retrieve = (\<lambda>i. PollStatus ''completed''),
       retrieve_latency = (\<lambda>i. 0), messages_list = MessagesValue (Some [0x20, 0xA0, 0x2003]) \<rparr>"

definition api_slow :: assistant_api where
  "api_slow = \<lparr> create_raises = None, retrieve = (\<lambda>i. PollStatus ''in_progress''),
       retrieve_latency = (\<lambda>i. 0), messages_list = MessagesRaise ''no message'' \<rparr>"

definition api_lagging :: assistant_api where
  "api_lagging = \<lparr> create_raises = None,
       retrieve = (\<lambda>i. if i < 2 then PollStatus ''in_progress'' else PollStatus ''completed''),
       retrieve_latency = (\<lambda>i. 58), messages_list = MessagesValue (Some [0x53, 0x75, 0x6D]) \<rparr>"

definition api_ok :: assistant_api where
  "api_ok = \<lparr> create_raises = None,
       retrieve = (\<lambda>i. if i < 1 then PollStatus ''queued'' else PollStatus ''completed''),
       retrieve_latency = (\<lambda>i. 1), messages_list = MessagesValue (Some [0x20, 0x53, 0x75, 0x6D, 0x0A]) \<rparr>"

definition api_refused :: assistant_api where
  "api_refused = api_ok\<lparr> create_raises := Some ''refused'' \<rparr>"

text \<open>An empty Drive.\<close>

definition drive0 :: drive where
  "drive0 = \<lparr> files = [], documents = (\<lambda>i. []), next_id = 0, faults = [] \<rparr>"



definition orch0 :: Orchestrator where
  "orch0 = \<lparr> event_queue = empty_queue, running = True, max_retries = 3, json_log = [],
       success_counter = 0, error_counter = (\<lambda>labels. 0), processing_time = [],
       in_flight_gauge = 0, queue_size_gauge = 0 \<rparr>"

text \<open>Stages that all succeed; a fetch with no data; a summary that is \<^verbatim>\<open>None\<close>; a fetch
  whose database is down at every attempt.\<close>

definition sg_ok :: stages where
  "sg_ok = \<lparr> fetcher = (\<lambda>tid. Inr (Some acme_data)),
       assistant = (\<lambda>data. Inr (Some ''Summary text'')),
       drive_documenter = (\<lambda>account summary. Inr (''docA'', ''docB'')),
       email_dispatcher = (\<lambda>data summary links. Inr (''EMAIL_SENT_cs@x'', ''EMAIL_SENT_am@x'')),
       seconds = 1 \<rparr>"

definition sg_no_data :: stages where
  "sg_no_data = sg_ok\<lparr> fetcher := (\<lambda>tid. Inr None) \<rparr>"

definition sg_no_summary :: stages where
  "sg_no_summary = sg_ok\<lparr> assistant := (\<lambda>data. Inr None) \<rparr>"

definition sg_down :: stages where
  "sg_down = sg_ok\<lparr> fetcher := (\<lambda>tid. fst (fetch_data (\<lambda>n. DbRaise ''down'') tid)) \<rparr>"

text \<open>An orchestrator with one item queued; the two objects of a running process, with
  two items queued and the listener due at 07:00 of day 100.\<close>

definition orch1 :: Orchestrator where
  "orch1 = orch0\<lparr> event_queue := \<lparr> items = [''T-1''], unfinished_tasks = 1 \<rparr> \<rparr>"

definition sys0 :: system where
  "sys0 = \<lparr> orchestrator = orch0\<lparr> event_queue := \<lparr> items = [''A'', ''B''], unfinished_tasks = 2 \<rparr> \<rparr>,
            listener = listener0\<lparr> listener_running := True,
                          next_run := \<lparr> date = 100, time_of_day = 25200000000 \<rparr> \<rparr> \<rparr>"

section \<open>The retry decorator: basic facts\<close>

declare retry_from.simps [simp del]

declare wait_for_run.simps [simp del]

declare digits.simps [simp del]

lemma retry_first_value: "call 1 = Inr v \<Longrightarrow> retry call = (Inr v, 1, [])"
  by (simp add: retry_def retry_from.simps)

lemma wait_exponential_bounds: "4 \<le> wait_exponential 1 4 10 k \<and> wait_exponential 1 4 10 k \<le> 10"
  by (simp add: wait_exponential_def)

lemma retry_from_policy:
  assumes "i \<le> stop_at"
  shows "case retry_from stop_at call i of (r, n, ws) \<Rightarrow>
           i \<le> n \<and> n \<le> stop_at
         \<and> (\<forall>j. i \<le> j \<and> j < n \<longrightarrow> isl (call j))
         \<and> (case call n of
               Inr v \<Rightarrow> r = Inr v
             | Inl e \<Rightarrow> n = stop_at \<and> r = Inl (RetryError (str_of_error e)))
         \<and> length ws = n - i
         \<and> (\<forall>w \<in> set ws. 4 \<le> w \<and> w \<le> 10)"
  using assms
proof (induction stop_at call i rule: retry_from.induct)
  case (1 stop_at call i)
  show ?case
  proof (cases "call i")
    case (Inr v)
    then show ?thesis using 1(2) by (subst retry_from.simps) auto
  next
    case (Inl e)
    show ?thesis
    proof (cases "i \<ge> stop_at")
      case True
      with 1(2) have "i = stop_at" by simp
      with Inl show ?thesis by (subst retry_from.simps) auto
    next
      case False
      then have le: "Suc i \<le> stop_at" by simp
      obtain r n ws where run: "retry_from stop_at call (Suc i) = (r, n, ws)"
        by (cases "retry_from stop_at call (Suc i)")
      from 1(1)[OF Inl False le] run
      have ih: "Suc i \<le> n" "n \<le> stop_at" "\<forall>j. Suc i \<le> j \<and> j < n \<longrightarrow> isl (call j)"
        "case call n of Inr v \<Rightarrow> r = Inr v | Inl e \<Rightarrow> n = stop_at \<and> r = Inl (RetryError (str_of_error e))"
        "length ws = n - Suc i" "\<forall>w \<in> set ws. 4 \<le> w \<and> w \<le> 10"
        by simp_all
      have eq: "retry_from stop_at call i = (r, n, wait_exponential 1 4 10 i # ws)"
        using Inl False run by (subst retry_from.simps) simp
      have all: "\<forall>j. i \<le> j \<and> j < n \<longrightarrow> isl (call j)"
      proof (intro allI impI)
        fix j assume "i \<le> j \<and> j < n"
        then consider "j = i" | "Suc i \<le> j \<and> j < n" by linarith
        then show "isl (call j)"
        proof cases
          case 1
          with Inl show ?thesis by simp
        next
          case 2
          with ih(3) show ?thesis by simp
        qed
      qed
      show ?thesis
        unfolding eq using ih(1,2,4,5,6) all wait_exponential_bounds[of i] by simp
    qed
  qed
qed

lemma retry_policy_retry: "retry_policy call (retry call)"
  using retry_from_policy[of 1 3 call]
  by (simp add: retry_policy_def retry_def split: prod.splits)

text \<open>A run whose attempts before the \<open>n\<close>-th raise and whose \<open>n\<close>-th attempt gives a
  value returns that value after \<open>n\<close> attempts.\<close>

lemma retry_at:
  assumes n: "1 \<le> n" "n \<le> 3"
    and before: "\<And>m. 1 \<le> m \<Longrightarrow> m < n \<Longrightarrow> isl (call m)"
    and at: "call n = Inr v"
  shows "fst (retry call) = Inr v \<and> fst (snd (retry call)) = n"
proof -
  obtain r k ws where out: "retry call = (r, k, ws)" by (cases "retry call") auto
  have pol: "retry_policy call (r, k, ws)" using retry_policy_retry[of call] out by simp
  hence k: "1 \<le> k" "k \<le> 3" and kb: "\<And>j. 1 \<le> j \<Longrightarrow> j < k \<Longrightarrow> isl (call j)"
    and kat: "(case call k of Inr v \<Rightarrow> r = Inr v | Inl e \<Rightarrow> k = 3 \<and> r = Inl (RetryError (str_of_error e)))"
    by (simp_all add: retry_policy_def)
  have "\<not> n < k" using kb[of n] n at by auto
  moreover have "\<not> k < n"
  proof
    assume "k < n"
    hence "isl (call k)" "k \<noteq> 3" using before[of k] k n by auto
    thus False using kat by (cases "call k") auto
  qed
  ultimately have "k = n" by simp
  thus ?thesis using kat at out by simp
qed

section \<open>The fetch stage\<close>

lemma fetchone_absent:
  "\<forall>row \<in> set joined. fst row \<noteq> PyStr tid \<Longrightarrow> fetchone joined tid = None"
  by (induction joined) (simp_all add: fetchone_def)

lemma fetchone_first:
  "\<forall>row \<in> set before. fst row \<noteq> PyStr tid \<Longrightarrow> fst x = PyStr tid \<Longrightarrow>
   fetchone (before @ x # after) tid = Some x"
  by (induction before) (simp_all add: fetchone_def)

lemma fetchone_echo: "fetchone joined tid = Some row \<Longrightarrow> fst row = PyStr tid"
  by (auto simp add: fetchone_def find_Some_iff)

lemma fetch_data_body_some:
  assumes "fetch_data_body q tid = Inr (Some d)"
  shows "transcript_id d = PyStr tid \<and>
         list_all truthy [account_name d, account_number d, speaker_name d, speaker_email d,
                          cs_email d, am_email d, transcript_text d]"
proof -
  from assms obtain joined where q: "q = DbRows joined"
    by (cases q) (simp_all add: fetch_data_body_def)
  from assms q obtain row where row: "fetchone joined tid = Some row"
    by (cases "fetchone joined tid") (simp_all add: fetch_data_body_def)
  obtain r0 r1 r2 r3 r4 r5 r6 r7 where r: "row = (r0, r1, r2, r3, r4, r5, r6, r7)"
    by (cases row) auto
  have "r0 = PyStr tid" using fetchone_echo[OF row] r by simp
  thus ?thesis using assms q row r
    by (simp add: fetch_data_body_def split: if_splits) auto
qed

lemma fetch_data_some:
  assumes "fst (fetch_data db tid) = Inr (Some d)"
  shows "transcript_id d = PyStr tid \<and>
         list_all truthy [account_name d, account_number d, speaker_name d, speaker_email d,
                          cs_email d, am_email d, transcript_text d]"
proof -
  let ?call = "\<lambda>n. fetch_data_body (db n) tid"
  obtain r k ws where out: "retry ?call = (r, k, ws)" by (cases "retry ?call") auto
  have "retry_policy ?call (r, k, ws)" using retry_policy_retry[of ?call] out by simp
  hence kat: "(case ?call k of Inr v \<Rightarrow> r = Inr v | Inl e \<Rightarrow> k = 3 \<and> r = Inl (RetryError (str_of_error e)))"
    by (simp add: retry_policy_def)
  have r: "r = Inr (Some d)" using assms out by (simp add: fetch_data_def)
  have "fetch_data_body (db k) tid = Inr (Some d)"
    using kat r by (cases "fetch_data_body (db k) tid") auto
  thus ?thesis by (rule fetch_data_body_some)
qed

lemma fetch_data_at:
  assumes "1 \<le> n" "n \<le> 3" "\<forall>m. 1 \<le> m \<and> m < n \<longrightarrow> (\<exists>e. db m = DbRaise e)"
    and "fetch_data_body (db n) tid = Inr v"
  shows "fst (fetch_data db tid) = Inr v \<and> fst (snd (fetch_data db tid)) = n"
proof -
  have "isl (fetch_data_body (db m) tid)" if "1 \<le> m" "m < n" for m
  proof -
    from that obtain e where "db m = DbRaise e" using assms(3) by blast
    thus ?thesis by (simp add: fetch_data_body_def)
  qed
  from retry_at[where call="\<lambda>m. fetch_data_body (db m) tid" and n=n and v=v, OF assms(1,2) this assms(4)]
  show ?thesis by (simp add: fetch_data_def)
qed

lemma rows_items_nonempty:
  "\<forall>t \<in> set (drop (length (items q)) (items (snd (start_listening_rows rows (seen, q))))). t \<noteq> []"
proof -
  have "\<exists>new. items (snd (start_listening_rows rows (seen, q))) = items q @ new \<and> (\<forall>t \<in> set new. t \<noteq> [])"
  proof (induction rows arbitrary: seen q)
    case Nil
    then show ?case by simp
  next
    case (Cons r rows)
    show ?case
    proof (cases "row_get r ''transcript_id''")
      case PyNone
      with Cons.IH[of seen q] show ?thesis by simp
    next
      case (PyStr tid)
      show ?thesis
      proof (cases "tid \<noteq> [] \<and> tid \<notin> seen")
        case False
        with PyStr Cons.IH[of seen q] show ?thesis by auto
      next
        case True
        from Cons.IH[of "insert tid seen" "put tid q"] obtain new where
          n: "items (snd (start_listening_rows rows (insert tid seen, put tid q))) = items (put tid q) @ new"
             "\<forall>t \<in> set new. t \<noteq> []" by blast
        have "items (snd (start_listening_rows (r # rows) (seen, q))) = items q @ (tid # new)"
          using n(1) PyStr True by (simp add: put_def)
        moreover have "\<forall>t \<in> set (tid # new). t \<noteq> []" using n(2) True by simp
        ultimately show ?thesis by blast
      qed
    qed
  qed
  then obtain new where "items (snd (start_listening_rows rows (seen, q))) = items q @ new"
    "\<forall>t \<in> set new. t \<noteq> []" by blast
  thus ?thesis by simp
qed

lemma process_transcript_no_data:
  "fetcher sg tid = Inr None \<Longrightarrow>
   process_transcript sg tid attempt st =
     (False,
      st\<lparr> json_log := json_log st @
             [\<lparr> log_transcript_id = tid, log_status = ''PROCESSING_STARTED'', log_module = None,
                 log_error = None, log_kwargs = [(''attempt'', KInt attempt)] \<rparr>,
              \<lparr> log_transcript_id = tid, log_status = ''FAILED_FETCH'', log_module = Some ''fetcher'',
                 log_error = None, log_kwargs = [] \<rparr>],
           error_counter := (error_counter st)((''fetcher'', ''no_data'') :=
                               Suc (error_counter st (''fetcher'', ''no_data''))) \<rparr>)"
  by (simp add: process_transcript_def process_transcript_try_def failed_fetch_def
        log_structured_def error_counter_inc_def Let_def)

text \<open>
  C4: the database raises at the attempts of \<^verbatim>\<open>fetch_data\<close> before the \<open>n\<close>-th and holds
  the rows \<open>joined\<close> at the \<open>n\<close>-th. When no row has the identifier asked for, or the first row that has it has an empty
  or missing value among account name, account number, speaker name, speaker email, CS
  email, AM email and transcript text, \<^verbatim>\<open>fetch_data\<close> returns \<^verbatim>\<open>None\<close> at that
  attempt, and \<^verbatim>\<open>process_transcript\<close> over this fetcher returns \<^verbatim>\<open>False\<close>, having
  logged the start and \<^verbatim>\<open>FAILED_FETCH\<close>, counted one fetcher error, and changed
  nothing else, whatever the other stages would answer. When the first row that has the
  identifier has all seven values non-empty, \<^verbatim>\<open>fetch_data\<close> returns the record of that
  row. Whatever the database does, a record returned by \<^verbatim>\<open>fetch_data\<close> has these seven
  fields non-empty and carries the identifier asked for, which the code does not test:
  it is non-empty when the identifier asked for is, and the identifiers that the
  listener's loop over the rows puts on the queue are never empty.
\<close>

theorem fetch_checks_required_fields:
  assumes "1 \<le> n" and "n \<le> 3"
    and "\<forall>m. 1 \<le> m \<and> m < n \<longrightarrow> (\<exists>e. db m = DbRaise e)"
    and "db n = DbRows joined"
  shows
   "(((\<forall>row \<in> set joined. fst row \<noteq> PyStr tid)
      \<or> (joined = before @ (PyStr tid, r1, r2, r3, r4, r5, r6, r7) # after
          \<and> (\<forall>row \<in> set before. fst row \<noteq> PyStr tid)
          \<and> \<not> list_all truthy [r1, r2, r3, r4, r5, r6, r7]))
     \<longrightarrow> fst (fetch_data db tid) = Inr None
       \<and> fst (snd (fetch_data db tid)) = n
       \<and> process_transcript (sg\<lparr> fetcher := (\<lambda>t. fst (fetch_data db t)) \<rparr>) tid attempt st =
           (False,
            st\<lparr> json_log := json_log st @
                   [\<lparr> log_transcript_id = tid, log_status = ''PROCESSING_STARTED'', log_module = None,
                       log_error = None, log_kwargs = [(''attempt'', KInt attempt)] \<rparr>,
                    \<lparr> log_transcript_id = tid, log_status = ''FAILED_FETCH'', log_module = Some ''fetcher'',
                       log_error = None, log_kwargs = [] \<rparr>],
                 error_counter := (error_counter st)((''fetcher'', ''no_data'') :=
                                     Suc (error_counter st (''fetcher'', ''no_data''))) \<rparr>))
    \<and> (joined = before @ (PyStr tid, r1, r2, r3, r4, r5, r6, r7) # after
        \<and> (\<forall>row \<in> set before. fst row \<noteq> PyStr tid)
        \<and> list_all truthy [r1, r2, r3, r4, r5, r6, r7]
     \<longrightarrow> fst (fetch_data db tid) =
           Inr (Some \<lparr> transcript_id = PyStr tid, account_name = r1, account_number = r2,
                       speaker_name = r3, speaker_email = r4, cs_email = r5, am_email = r6,
                       transcript_text = r7 \<rparr>)
       \<and> fst (snd (fetch_data db tid)) = n)
    \<and> (fst (fetch_data db' tid) = Inr (Some d)
     \<longrightarrow> list_all truthy [account_name d, account_number d, speaker_name d,
                          speaker_email d, cs_email d, am_email d, transcript_text d]
       \<and> transcript_id d = PyStr tid
       \<and> (tid \<noteq> [] \<longrightarrow> truthy (transcript_id d)))
    \<and> (\<forall>t \<in> set (drop (length (items q)) (items (snd (start_listening_rows rows (seen, q))))).
          t \<noteq> [])"
proof (intro conjI impI)
  assume none: "(\<forall>row \<in> set joined. fst row \<noteq> PyStr tid)
      \<or> (joined = before @ (PyStr tid, r1, r2, r3, r4, r5, r6, r7) # after
          \<and> (\<forall>row \<in> set before. fst row \<noteq> PyStr tid)
          \<and> \<not> list_all truthy [r1, r2, r3, r4, r5, r6, r7])"
  have body: "fetch_data_body (db n) tid = Inr None"
  proof (cases "\<forall>row \<in> set joined. fst row \<noteq> PyStr tid")
    case True
    thus ?thesis using assms(4) by (simp add: fetch_data_body_def fetchone_absent)
  next
    case False
    with none have j: "joined = before @ (PyStr tid, r1, r2, r3, r4, r5, r6, r7) # after"
      and b: "\<forall>row \<in> set before. fst row \<noteq> PyStr tid"
      and e: "\<not> list_all truthy [r1, r2, r3, r4, r5, r6, r7]" by auto
    have "fetchone joined tid = Some (PyStr tid, r1, r2, r3, r4, r5, r6, r7)"
      unfolding j using b by (rule fetchone_first) simp
    thus ?thesis using assms(4) e by (simp add: fetch_data_body_def)
  qed
  note at = fetch_data_at[OF assms(1,2,3) body]
  show "fst (fetch_data db tid) = Inr None" using at by simp
  show "fst (snd (fetch_data db tid)) = n" using at by simp
  have "fetcher (sg\<lparr> fetcher := (\<lambda>t. fst (fetch_data db t)) \<rparr>) tid = Inr None" using at by simp
  thus "process_transcript (sg\<lparr> fetcher := (\<lambda>t. fst (fetch_data db t)) \<rparr>) tid attempt st =
           (False,
            st\<lparr> json_log := json_log st @
                   [\<lparr> log_transcript_id = tid, log_status = ''PROCESSING_STARTED'', log_module = None,
                       log_error = None, log_kwargs = [(''attempt'', KInt attempt)] \<rparr>,
                    \<lparr> log_transcript_id = tid, log_status = ''FAILED_FETCH'', log_module = Some ''fetcher'',
                       log_error = None, log_kwargs = [] \<rparr>],
                 error_counter := (error_counter st)((''fetcher'', ''no_data'') :=
                                     Suc (error_counter st (''fetcher'', ''no_data''))) \<rparr>)"
    by (rule process_transcript_no_data)
next
  assume full: "joined = before @ (PyStr tid, r1, r2, r3, r4, r5, r6, r7) # after
        \<and> (\<forall>row \<in> set before. fst row \<noteq> PyStr tid)
        \<and> list_all truthy [r1, r2, r3, r4, r5, r6, r7]"
  hence j: "joined = before @ (PyStr tid, r1, r2, r3, r4, r5, r6, r7) # after"
    and b: "\<forall>row \<in> set before. fst row \<noteq> PyStr tid"
    and e: "list_all truthy [r1, r2, r3, r4, r5, r6, r7]" by auto
  have "fetchone joined tid = Some (PyStr tid, r1, r2, r3, r4, r5, r6, r7)"
    unfolding j using b by (rule fetchone_first) simp
  hence body: "fetch_data_body (db n) tid =
           Inr (Some \<lparr> transcript_id = PyStr tid, account_name = r1, account_number = r2,
                       speaker_name = r3, speaker_email = r4, cs_email = r5, am_email = r6,
                       transcript_text = r7 \<rparr>)"
    using assms(4) e by (simp add: fetch_data_body_def)
  note at = fetch_data_at[OF assms(1,2,3) body]
  show "fst (fetch_data db tid) =
           Inr (Some \<lparr> transcript_id = PyStr tid, account_name = r1, account_number = r2,
                       speaker_name = r3, speaker_email = r4, cs_email = r5, am_email = r6,
                       transcript_text = r7 \<rparr>)" using at by simp
  show "fst (snd (fetch_data db tid)) = n" using at by simp
next
  assume some: "fst (fetch_data db' tid) = Inr (Some d)"
  note s = fetch_data_some[OF some]
  show "transcript_id d = PyStr tid" using s by simp
  show "list_all truthy [account_name d, account_number d, speaker_name d,
                          speaker_email d, cs_email d, am_email d, transcript_text d]"
    using s by simp
  show "truthy (transcript_id d)" if "tid \<noteq> []" using s that by simp
next
  show "\<forall>t \<in> set (drop (length (items q)) (items (snd (start_listening_rows rows (seen, q))))).
          t \<noteq> []" by (rule rows_items_nonempty)
qed

text \<open>A database that times out once and then holds the three rows of \<open>joined0\<close>: the
  record of T-1 comes back at the second attempt; T-2, whose CS email is empty, and T-9,
  which has no row, give \<^verbatim>\<open>None\<close> at the second attempt, and the runner logs
  \<^verbatim>\<open>FAILED_FETCH\<close> for T-2 and goes no further. Of four rows of a poll, with the
  identifiers T-1, empty, missing and T-1 again, the listener queues T-1 once.\<close>

theorem fetch_checks_required_fields_witness:
  "fst (fetch_data db_late ''T-1'') =
     Inr (Some \<lparr> transcript_id = PyStr ''T-1'', account_name = PyStr ''Acme'', account_number = PyStr ''42'',
                 speaker_name = PyStr ''Ann'', speaker_email = PyStr ''ann@x'', cs_email = PyStr ''cs@x'',
                 am_email = PyStr ''am@x'', transcript_text = PyStr ''hello'' \<rparr>)
   \<and> fst (snd (fetch_data db_late ''T-1'')) = 2
   \<and> fst (fetch_data db_late ''T-2'') = Inr None
   \<and> fst (snd (fetch_data db_late ''T-2'')) = 2
   \<and> process_transcript (sg_ok\<lparr> fetcher := (\<lambda>t. fst (fetch_data db_late t)) \<rparr>) ''T-2'' 1 orch1 =
       (False,
        orch1\<lparr> json_log :=
                [\<lparr> log_transcript_id = ''T-2'', log_status = ''PROCESSING_STARTED'', log_module = None,
                    log_error = None, log_kwargs = [(''attempt'', KInt 1)] \<rparr>,
                 \<lparr> log_transcript_id = ''T-2'', log_status = ''FAILED_FETCH'', log_module = Some ''fetcher'',
                    log_error = None, log_kwargs = [] \<rparr>],
              error_counter := (\<lambda>labels. 0)((''fetcher'', ''no_data'') := 1) \<rparr>)
   \<and> fst (fetch_data db_late ''T-9'') = Inr None
   \<and> fst (snd (fetch_data db_late ''T-9'')) = 2
   \<and> items (snd (start_listening_rows [id_row ''T-1'', id_row [], Map.empty, id_row ''T-1'']
                    ({}, empty_queue))) = [''T-1'']
   \<and> truthy (PyStr ''T-1'')"
proof -
  let ?row0 = "(PyStr ''T-0'', PyStr ''Beta'', PyStr ''7'', PyStr ''Bob'', PyStr ''bob@x'', PyStr ''cs@y'',
       PyStr ''am@y'', PyStr ''hi'')"
  let ?row1 = "(PyStr ''T-1'', PyStr ''Acme'', PyStr ''42'', PyStr ''Ann'', PyStr ''ann@x'', PyStr ''cs@x'',
       PyStr ''am@x'', PyStr ''hello'')"
  let ?row2 = "(PyStr ''T-2'', PyStr ''Acme'', PyStr ''42'', PyStr ''Ann'', PyStr ''ann@x'', PyStr [],
       PyStr ''am@x'', PyStr ''hello'')"
  have n: "(1::nat) \<le> 2" "(2::nat) \<le> 3" by simp_all
  have raises: "\<forall>m. 1 \<le> m \<and> m < 2 \<longrightarrow> (\<exists>e. db_late m = DbRaise e)" by (simp add: db_late_def)
  have rows: "db_late 2 = DbRows joined0" by (simp add: db_late_def)
  let ?rec1 = "\<lparr> transcript_id = PyStr ''T-1'', account_name = PyStr ''Acme'', account_number = PyStr ''42'',
                 speaker_name = PyStr ''Ann'', speaker_email = PyStr ''ann@x'', cs_email = PyStr ''cs@x'',
                 am_email = PyStr ''am@x'', transcript_text = PyStr ''hello'' \<rparr>"
  have full: "joined0 = [?row0] @ ?row1 # [?row2]
        \<and> (\<forall>row \<in> set [?row0]. fst row \<noteq> PyStr ''T-1'')
        \<and> list_all truthy [PyStr ''Acme'', PyStr ''42'', PyStr ''Ann'', PyStr ''ann@x'', PyStr ''cs@x'',
             PyStr ''am@x'', PyStr ''hello'']"
    by (simp add: joined0_def)
  have empty: "joined0 = [?row0, ?row1] @ ?row2 # []
        \<and> (\<forall>row \<in> set [?row0, ?row1]. fst row \<noteq> PyStr ''T-2'')
        \<and> \<not> list_all truthy [PyStr ''Acme'', PyStr ''42'', PyStr ''Ann'', PyStr ''ann@x'', PyStr [],
             PyStr ''am@x'', PyStr ''hello'']"
    by (simp add: joined0_def)
  have absent: "\<forall>row \<in> set joined0. fst row \<noteq> PyStr ''T-9''" by (simp add: joined0_def)
  note a = fetch_checks_required_fields[where tid="''T-1''" and n=2 and db=db_late and joined=joined0
      and before="[?row0]" and after="[?row2]" and ?r1.0="PyStr ''Acme''" and ?r2.0="PyStr ''42''"
      and ?r3.0="PyStr ''Ann''" and ?r4.0="PyStr ''ann@x''" and ?r5.0="PyStr ''cs@x''"
      and ?r6.0="PyStr ''am@x''" and ?r7.0="PyStr ''hello''" and sg=sg_ok and attempt=1 and st=orch1
      and db'=db_late and d="?rec1" and q=empty_queue and seen="{}"
      and rows="[id_row ''T-1'', id_row [], Map.empty, id_row ''T-1'']", OF n raises rows]
  note b = fetch_checks_required_fields[where tid="''T-2''" and n=2 and db=db_late and joined=joined0
      and before="[?row0, ?row1]" and after="[]" and ?r1.0="PyStr ''Acme''" and ?r2.0="PyStr ''42''"
      and ?r3.0="PyStr ''Ann''" and ?r4.0="PyStr ''ann@x''" and ?r5.0="PyStr []"
      and ?r6.0="PyStr ''am@x''" and ?r7.0="PyStr ''hello''" and sg=sg_ok and attempt=1 and st=orch1
      and db'=db_late and d=acme_data, OF n raises rows]
  note c = fetch_checks_required_fields[where tid="''T-9''" and n=2 and db=db_late and joined=joined0
      and before="[]" and after="[]" and ?r1.0=PyNone and ?r2.0=PyNone
      and ?r3.0=PyNone and ?r4.0=PyNone and ?r5.0=PyNone
      and ?r6.0=PyNone and ?r7.0=PyNone and sg=sg_ok and attempt=1 and st=orch1
      and db'=db_late and d=acme_data, OF n raises rows]
  from a full have a': "fst (fetch_data db_late ''T-1'') =
     Inr (Some \<lparr> transcript_id = PyStr ''T-1'', account_name = PyStr ''Acme'', account_number = PyStr ''42'',
                 speaker_name = PyStr ''Ann'', speaker_email = PyStr ''ann@x'', cs_email = PyStr ''cs@x'',
                 am_email = PyStr ''am@x'', transcript_text = PyStr ''hello'' \<rparr>)
       \<and> fst (snd (fetch_data db_late ''T-1'')) = 2" by blast
  from b empty have b': "fst (fetch_data db_late ''T-2'') = Inr None
       \<and> fst (snd (fetch_data db_late ''T-2'')) = 2
       \<and> process_transcript (sg_ok\<lparr> fetcher := (\<lambda>t. fst (fetch_data db_late t)) \<rparr>) ''T-2'' 1 orch1 =
           (False,
            orch1\<lparr> json_log := json_log orch1 @
                   [\<lparr> log_transcript_id = ''T-2'', log_status = ''PROCESSING_STARTED'', log_module = None,
                       log_error = None, log_kwargs = [(''attempt'', KInt 1)] \<rparr>,
                    \<lparr> log_transcript_id = ''T-2'', log_status = ''FAILED_FETCH'', log_module = Some ''fetcher'',
                       log_error = None, log_kwargs = [] \<rparr>],
                 error_counter := (error_counter orch1)((''fetcher'', ''no_data'') :=
                                     Suc (error_counter orch1 (''fetcher'', ''no_data''))) \<rparr>)" by blast
  from c absent have c': "fst (fetch_data db_late ''T-9'') = Inr None
       \<and> fst (snd (fetch_data db_late ''T-9'')) = 2" by blast
  from a a' have d': "truthy (PyStr ''T-1'')" by simp
  have e': "items (snd (start_listening_rows [id_row ''T-1'', id_row [], Map.empty, id_row ''T-1'']
                    ({}, empty_queue))) = [''T-1'']"
    by (simp add: id_row_def row_get_def put_def empty_queue_def)
  have o: "json_log orch1 = []" "error_counter orch1 = (\<lambda>labels. 0)" by (simp_all add: orch1_def orch0_def)
  show ?thesis using a' b' c' d' e' unfolding o by simp
qed


section \<open>The poller\<close>

lemma start_listening_rows_append:
  "start_listening_rows (xs @ ys) sq = start_listening_rows ys (start_listening_rows xs sq)"
proof (induction xs arbitrary: sq)
  case Nil
  show ?case by simp
next
  case (Cons r xs)
  obtain seen q where sq: "sq = (seen, q)" by (cases sq)
  show ?case
    unfolding sq using Cons.IH by (cases "row_get r ''transcript_id''") simp_all
qed

lemma start_listening_rows_skip:
  "\<not> truthy (row_get r ''transcript_id'') \<Longrightarrow> start_listening_rows [r] (seen, q) = (seen, q)"
  by (cases "row_get r ''transcript_id''") simp_all

lemma rows_new_items:
  "start_listening_rows rows (seen, q) = (seen', q') \<Longrightarrow>
     \<exists>new. items q' = items q @ new \<and> distinct new \<and> set new \<inter> seen = {} \<and> seen' = seen \<union> set new"
proof (induction rows arbitrary: seen q)
  case Nil
  then show ?case by simp
next
  case (Cons r rows)
  show ?case
  proof (cases "row_get r ''transcript_id''")
    case PyNone
    with Cons.prems have "start_listening_rows rows (seen, q) = (seen', q')" by simp
    from Cons.IH[OF this] show ?thesis .
  next
    case (PyStr tid)
    show ?thesis
    proof (cases "tid \<noteq> [] \<and> tid \<notin> seen")
      case False
      with PyStr Cons.prems have "start_listening_rows rows (seen, q) = (seen', q')" by auto
      from Cons.IH[OF this] show ?thesis .
    next
      case True
      with PyStr Cons.prems
      have "start_listening_rows rows (insert tid seen, put tid q) = (seen', q')" by simp
      from Cons.IH[OF this] obtain new where
        n: "items q' = items (put tid q) @ new" "distinct new" "set new \<inter> insert tid seen = {}"
           "seen' = insert tid seen \<union> set new"
        by blast
      have "items q' = items q @ (tid # new)" using n(1) by (simp add: put_def)
      moreover have "distinct (tid # new)" using n(2,3) by auto
      moreover have "set (tid # new) \<inter> seen = {}" using n(3) True by auto
      moreover have "seen' = seen \<union> set (tid # new)" using n(4) by auto
      ultimately show ?thesis by blast
    qed
  qed
qed

lemma turn_new_items:
  "start_listening_turn now poll (l, q) = (t, l', q') \<Longrightarrow>
     \<exists>new. items q' = items q @ new \<and> distinct new \<and> set new \<inter> processed_ids l = {}
        \<and> processed_ids l' = processed_ids l \<union> set new"
proof (cases "listener_running l \<and> \<not> dt_less now (next_run l)")
  case False
  assume "start_listening_turn now poll (l, q) = (t, l', q')"
  with False have "l' = l \<and> q' = q"
    by (auto simp: start_listening_turn_def split: if_splits)
  then show ?thesis by simp
next
  case due: True
  assume run: "start_listening_turn now poll (l, q) = (t, l', q')"
  show ?thesis
  proof (cases poll)
    case (PollError m)
    with due run have "l' = l \<and> q' = q" by (simp add: start_listening_turn_def)
    then show ?thesis by simp
  next
    case (PollRows new_rows)
    obtain seen q1 where r: "start_listening_rows new_rows (processed_ids l, q) = (seen, q1)"
      by (cases "start_listening_rows new_rows (processed_ids l, q)")
    with due run PollRows have "processed_ids l' = seen" "q' = q1"
      by (auto simp: start_listening_turn_def)
    with rows_new_items[OF r] show ?thesis by simp
  qed
qed

text \<open>
  C6: over any turns of the poller's loop (sleeps, firings, caught exceptions), from any
  set of seen identifiers and any queue, the poller only appends to the queue; the
  identifiers it appends are pairwise distinct (each is enqueued at most once), none of
  them was in the SeenSet before, and the SeenSet afterwards is the old one together
  with exactly the identifiers enqueued.
\<close>

theorem poller_enqueues_each_identifier_once:
  assumes "start_listening_loop turns (l, q) = (l', q')"
  shows "\<exists>new. items q' = items q @ new \<and> distinct new \<and> set new \<inter> processed_ids l = {}
            \<and> processed_ids l' = processed_ids l \<union> set new"
  using assms
proof (induction turns arbitrary: l q)
  case Nil
  then show ?case by simp
next
  case (Cons turn turns)
  obtain now poll where turn: "turn = (now, poll)" by (cases turn)
  obtain t l1 q1 where r: "start_listening_turn now poll (l, q) = (t, l1, q1)"
    by (cases "start_listening_turn now poll (l, q)")
  from turn_new_items[OF r] obtain n1 where
    n1: "items q1 = items q @ n1" "distinct n1" "set n1 \<inter> processed_ids l = {}"
        "processed_ids l1 = processed_ids l \<union> set n1"
    by blast
  from Cons.prems turn r have "start_listening_loop turns (l1, q1) = (l', q')" by simp
  from Cons.IH[OF this] obtain n2 where
    n2: "items q' = items q1 @ n2" "distinct n2" "set n2 \<inter> processed_ids l1 = {}"
        "processed_ids l' = processed_ids l1 \<union> set n2"
    by blast
  have "items q' = items q @ (n1 @ n2)" using n1(1) n2(1) by simp
  moreover have "distinct (n1 @ n2)" using n1(2,4) n2(2,3) by auto
  moreover have "set (n1 @ n2) \<inter> processed_ids l = {}" using n1(3,4) n2(3) by auto
  moreover have "processed_ids l' = processed_ids l \<union> set (n1 @ n2)" using n1(4) n2(4) by auto
  ultimately show ?case by blast
qed

text \<open>A listener due at 07:00 of day 100: it fires, sleeps an hour later, and fires again
  the next day; identifiers that come back are not enqueued again.\<close>

theorem poller_enqueues_each_identifier_once_witness:
  "start_listening_loop
       [(\<lparr> date = 100, time_of_day = 25200000000 \<rparr>,
           PollRows [id_row ''T-1'', id_row ''T-2'', id_row ''T-1'']),
        (\<lparr> date = 100, time_of_day = 28800000000 \<rparr>, PollRows [id_row ''T-9'']),
        (\<lparr> date = 101, time_of_day = 25200000000 \<rparr>, PollRows [id_row ''T-2'', id_row ''T-3''])]
       (listener sys0, empty_queue)
     = ((listener sys0)\<lparr> processed_ids := {''T-1'', ''T-2'', ''T-3''},
                          next_run := \<lparr> date = 102, time_of_day = 25200000000 \<rparr> \<rparr>,
        \<lparr> items = [''T-1'', ''T-2'', ''T-3''], unfinished_tasks = 3 \<rparr>)
   \<and> (\<exists>new. [''T-1'', ''T-2'', ''T-3''] = items empty_queue @ new \<and> distinct new
          \<and> set new \<inter> processed_ids (listener sys0) = {}
          \<and> {''T-1'', ''T-2'', ''T-3''} = processed_ids (listener sys0) \<union> set new)"
proof -
  have e: "start_listening_loop
       [(\<lparr> date = 100, time_of_day = 25200000000 \<rparr>,
           PollRows [id_row ''T-1'', id_row ''T-2'', id_row ''T-1'']),
        (\<lparr> date = 100, time_of_day = 28800000000 \<rparr>, PollRows [id_row ''T-9'']),
        (\<lparr> date = 101, time_of_day = 25200000000 \<rparr>, PollRows [id_row ''T-2'', id_row ''T-3''])]
       (listener sys0, empty_queue)
     = ((listener sys0)\<lparr> processed_ids := {''T-1'', ''T-2'', ''T-3''},
                          next_run := \<lparr> date = 102, time_of_day = 25200000000 \<rparr> \<rparr>,
        \<lparr> items = [''T-1'', ''T-2'', ''T-3''], unfinished_tasks = 3 \<rparr>)"
    by (simp add: sys0_def listener0_def empty_queue_def id_row_def row_get_def put_def
          start_listening_turn_def dt_less_def add_days_def insert_commute)
  from poller_enqueues_each_identifier_once[OF e] e show ?thesis by simp
qed

text \<open>
  C10: a record of the discovery response whose identifier is missing, \<^verbatim>\<open>None\<close> or empty
  changes neither the SeenSet nor the queue, and the records before and after it in the
  same response are handled as if it were not there.
\<close>

theorem rows_without_identifier_skipped:
  assumes "\<not> truthy (row_get r ''transcript_id'')"
  shows "start_listening_rows [r] (seen, q) = (seen, q)
       \<and> start_listening_rows (before @ r # after) (seen, q) =
           start_listening_rows (before @ after) (seen, q)"
proof -
  obtain seen' q' where b: "start_listening_rows before (seen, q) = (seen', q')"
    by (cases "start_listening_rows before (seen, q)")
  have "start_listening_rows (before @ [r] @ after) (seen, q) =
        start_listening_rows after (start_listening_rows [r] (seen', q'))"
    by (simp only: start_listening_rows_append b)
  also have "\<dots> = start_listening_rows after (seen', q')"
    by (simp only: start_listening_rows_skip[OF assms])
  also have "\<dots> = start_listening_rows (before @ after) (seen, q)"
    by (simp only: start_listening_rows_append b)
  finally show ?thesis
    using start_listening_rows_skip[OF assms] by simp
qed

theorem rows_without_identifier_skipped_witness:
  "\<not> truthy (row_get [''call_id'' \<mapsto> PyStr ''c-9''] ''transcript_id'')
   \<and> start_listening_rows [[''call_id'' \<mapsto> PyStr ''c-9'']] ({}, empty_queue) = ({}, empty_queue)
   \<and> start_listening_rows ([id_row ''T-1''] @ [''call_id'' \<mapsto> PyStr ''c-9''] # [id_row ''T-2''])
        ({}, empty_queue)
      = ({''T-1'', ''T-2''}, \<lparr> items = [''T-1'', ''T-2''], unfinished_tasks = 2 \<rparr>)"
proof -
  have h: "\<not> truthy (row_get [''call_id'' \<mapsto> PyStr ''c-9''] ''transcript_id'')"
    by (simp add: row_get_def)
  have e: "start_listening_rows ([id_row ''T-1''] @ [id_row ''T-2'']) ({}, empty_queue)
      = ({''T-1'', ''T-2''}, \<lparr> items = [''T-1'', ''T-2''], unfinished_tasks = 2 \<rparr>)"
    by (simp add: empty_queue_def id_row_def row_get_def put_def insert_commute)
  from rows_without_identifier_skipped[OF h, of "{}" empty_queue "[id_row ''T-1'']" "[id_row ''T-2'']"]
  show ?thesis using h e by simp
qed


text \<open>
  C5: with a valid configured hour and minute, the first next-run time is at that hour
  and minute, today when the clock's time of day is before it and tomorrow otherwise; and
  a firing (a turn of the running listener that is due and gets its response) moves the
  next-run time on by one day from its previous value, whatever the clock reads then.
\<close>

theorem next_run_schedule:
  assumes "0 \<le> run_hour l" "run_hour l \<le> 23" "0 \<le> run_minute l" "run_minute l \<le> 59"
  shows "(\<exists>l'. start_listening_init now l = Inr l'
            \<and> time_of_day (next_run l') = (run_hour l * 3600 + run_minute l * 60) * 1000000
            \<and> date (next_run l') =
                (if time_of_day now < (run_hour l * 3600 + run_minute l * 60) * 1000000
                 then date now else date now + 1))
       \<and> (listener_running l \<and> \<not> dt_less now' (next_run l) \<longrightarrow>
            (\<exists>l' q'. start_listening_turn now' (PollRows rows) (l, q) = (Polled, l', q')
               \<and> date (next_run l') = date (next_run l) + 1
               \<and> time_of_day (next_run l') = time_of_day (next_run l)))"
proof -
  have t: "dt_time (run_hour l) (run_minute l) = Inr ((run_hour l * 3600 + run_minute l * 60) * 1000000)"
    using assms by (simp add: dt_time_def)
  have init: "\<exists>l'. start_listening_init now l = Inr l'
            \<and> time_of_day (next_run l') = (run_hour l * 3600 + run_minute l * 60) * 1000000
            \<and> date (next_run l') =
                (if time_of_day now < (run_hour l * 3600 + run_minute l * 60) * 1000000
                 then date now else date now + 1)"
    by (simp add: start_listening_init_def t combine_def dt_less_def add_days_def Let_def)
  have turn: "listener_running l \<and> \<not> dt_less now' (next_run l) \<longrightarrow>
            (\<exists>l' q'. start_listening_turn now' (PollRows rows) (l, q) = (Polled, l', q')
               \<and> date (next_run l') = date (next_run l) + 1
               \<and> time_of_day (next_run l') = time_of_day (next_run l))"
    by (cases "start_listening_rows rows (processed_ids l, q)")
       (simp add: start_listening_turn_def add_days_def)
  from init turn show ?thesis by blast
qed

text \<open>At 06:59:59.999999 the run is today at 07:00; at 07:00 sharp it is tomorrow; and a
  listener that fires three days late is next due one day after its previous due time.\<close>

theorem next_run_schedule_witness:
  "start_listening_init \<lparr> date = 100, time_of_day = 25199999999 \<rparr> listener0 =
     Inr (listener0\<lparr> listener_running := True, next_run := \<lparr> date = 100, time_of_day = 25200000000 \<rparr> \<rparr>)
   \<and> start_listening_init \<lparr> date = 100, time_of_day = 25200000000 \<rparr> listener0 =
     Inr (listener0\<lparr> listener_running := True, next_run := \<lparr> date = 101, time_of_day = 25200000000 \<rparr> \<rparr>)
   \<and> start_listening_turn \<lparr> date = 103, time_of_day = 5 \<rparr> (PollRows [])
        (listener0\<lparr> listener_running := True, next_run := \<lparr> date = 100, time_of_day = 25200000000 \<rparr> \<rparr>,
         empty_queue) =
     (Polled,
      listener0\<lparr> listener_running := True, next_run := \<lparr> date = 101, time_of_day = 25200000000 \<rparr> \<rparr>,
      empty_queue)"
  using next_run_schedule[of "listener0\<lparr> listener_running := True,
            next_run := \<lparr> date = 100, time_of_day = 25200000000 \<rparr> \<rparr>"
          "\<lparr> date = 100, time_of_day = 25199999999 \<rparr>" "\<lparr> date = 103, time_of_day = 5 \<rparr>" "[]" empty_queue]
  by (simp add: listener0_def empty_queue_def start_listening_init_def start_listening_turn_def
        dt_time_def combine_def dt_less_def add_days_def)


section \<open>The summarize stage\<close>

lemma strip_blank: "\<forall>c \<in> set s. is_space c \<Longrightarrow> strip s = []"
proof -
  assume "\<forall>c \<in> set s. is_space c"
  hence d: "dropWhile is_space s = []" by simp
  show ?thesis unfolding strip_def d by simp
qed

lemma dropWhile_keeps: "c \<in> set s \<Longrightarrow> \<not> P c \<Longrightarrow> c \<in> set (dropWhile P s)"
  by (induction s) auto

lemma strip_keeps: "c \<in> set s \<Longrightarrow> \<not> is_space c \<Longrightarrow> c \<in> set (strip s)"
proof -
  assume c: "c \<in> set s" "\<not> is_space c"
  hence "c \<in> set (rev (dropWhile is_space s))" using dropWhile_keeps[of c s is_space] by simp
  hence "c \<in> set (dropWhile is_space (rev (dropWhile is_space s)))"
    using c(2) by (rule dropWhile_keeps)
  thus ?thesis by (simp add: strip_def)
qed

lemma strip_ends:
  assumes "strip s \<noteq> []"
  shows "\<not> is_space (hd (strip s)) \<and> \<not> is_space (last (strip s))"
proof -
  define u where "u = dropWhile is_space s"
  define t where "t = dropWhile is_space (rev u)"
  have st: "strip s = rev t" by (simp add: strip_def t_def u_def)
  with assms have t: "t \<noteq> []" by simp
  have "\<not> is_space (hd t)" using t unfolding t_def by (rule hd_dropWhile)
  hence l: "\<not> is_space (last (rev t))" using t by (simp add: last_rev)
  have "rev u = takeWhile is_space (rev u) @ t" by (simp add: t_def)
  hence "last (rev u) = last t" using t by (metis last_appendR)
  moreover have u: "u \<noteq> []" using t by (auto simp add: t_def)
  ultimately have "last t = hd u" by (simp add: last_rev)
  moreover have "\<not> is_space (hd u)" using u unfolding u_def by (rule hd_dropWhile)
  ultimately have "\<not> is_space (hd (rev t))" using t by (simp add: hd_rev)
  with l show ?thesis by (simp add: st)
qed

lemma strip_idem: "strip (strip s) = strip s"
proof (cases "strip s = []")
  case True
  have "strip [] = ([]::nat list)" by (simp add: strip_def)
  thus ?thesis using True by simp
next
  case False
  note e = strip_ends[OF False]
  have a: "dropWhile is_space (strip s) = strip s"
    using False e by (cases "strip s") simp_all
  have "rev (strip s) \<noteq> []" using False by simp
  moreover have "\<not> is_space (hd (rev (strip s)))" using False e by (simp add: hd_rev)
  ultimately have b: "dropWhile is_space (rev (strip s)) = rev (strip s)"
    by (cases "rev (strip s)") simp_all
  show ?thesis unfolding strip_def[of "strip s"] a b by simp
qed

lemma pending_status:
  assumes "is_pending p"
  obtains status where "p = PollStatus status" "status \<noteq> ''completed''"
    "status \<notin> set [''failed'', ''cancelled'', ''expired'']"
  using assms by (cases p) auto

lemma wait_for_run_failure:
  assumes "i \<le> k" and "\<forall>j. i \<le> j \<and> j < k \<longrightarrow> is_pending (retrieve a j)"
      and "retrieve a k = PollStatus st" and "st \<in> set [''failed'', ''cancelled'', ''expired'']"
  shows "fst (wait_for_run t a e i) = Inr None"
  using assms
proof (induction t a e i rule: wait_for_run.induct)
  case (1 timeout api elapsed i)
  show ?case
  proof (cases "elapsed < timeout")
    case False
    then show ?thesis by (subst wait_for_run.simps) simp
  next
    case True
    show ?thesis
    proof (cases "i = k")
      case True
      with 1(4,5) \<open>elapsed < timeout\<close> show ?thesis
        by (subst wait_for_run.simps) auto
    next
      case False
      with 1(2) have lt: "i < k" by simp
      with 1(3) have p: "is_pending (retrieve api i)" by simp
      then obtain status where s: "retrieve api i = PollStatus status"
        "status \<noteq> ''completed''" "status \<notin> set [''failed'', ''cancelled'', ''expired'']"
        by (rule pending_status)
      have "fst (wait_for_run timeout api (elapsed + int (retrieve_latency api i) + 2) (Suc i)) = Inr None"
        using 1(1)[OF True s] lt 1(3,4,5) by simp
      then show ?thesis
        using True s by (subst wait_for_run.simps) simp
    qed
  qed
qed

lemma wait_for_run_blank:
  assumes "i \<le> k" and "\<forall>j. i \<le> j \<and> j < k \<longrightarrow> is_pending (retrieve a j)"
      and "retrieve a k = PollStatus ''completed''" and "messages_list a = MessagesValue v"
      and "v = None \<or> (\<exists>s. v = Some s \<and> strip s = [])"
  shows "fst (wait_for_run t a e i) = Inr None"
  using assms
proof (induction t a e i rule: wait_for_run.induct)
  case (1 timeout api elapsed i)
  show ?case
  proof (cases "elapsed < timeout")
    case False
    then show ?thesis by (subst wait_for_run.simps) simp
  next
    case True
    show ?thesis
    proof (cases "i = k")
      case True
      with 1(4,5,6) \<open>elapsed < timeout\<close> show ?thesis
        by (subst wait_for_run.simps) auto
    next
      case False
      with 1(2) have lt: "i < k" by simp
      with 1(3) have p: "is_pending (retrieve api i)" by simp
      then obtain status where s: "retrieve api i = PollStatus status"
        "status \<noteq> ''completed''" "status \<notin> set [''failed'', ''cancelled'', ''expired'']"
        by (rule pending_status)
      have "fst (wait_for_run timeout api (elapsed + int (retrieve_latency api i) + 2) (Suc i)) = Inr None"
        using 1(1)[OF True s] lt 1(3,4,5,6) by simp
      then show ?thesis
        using True s by (subst wait_for_run.simps) simp
    qed
  qed
qed

lemma wait_for_run_timeout:
  assumes "i \<le> k" and "\<forall>j. i \<le> j \<and> j < k \<longrightarrow> is_pending (retrieve a j)"
      and "t \<le> e + (elapsed_at a k - elapsed_at a i)"
  shows "fst (wait_for_run t a e i) = Inr None"
  using assms
proof (induction t a e i rule: wait_for_run.induct)
  case (1 timeout api elapsed i)
  show ?case
  proof (cases "elapsed < timeout")
    case False
    then show ?thesis by (subst wait_for_run.simps) simp
  next
    case True
    with 1(4) have "i \<noteq> k" by auto
    with 1(2) have lt: "i < k" by simp
    with 1(3) have p: "is_pending (retrieve api i)" by simp
    then obtain status where s: "retrieve api i = PollStatus status"
      "status \<noteq> ''completed''" "status \<notin> set [''failed'', ''cancelled'', ''expired'']"
      by (rule pending_status)
    have "fst (wait_for_run timeout api (elapsed + int (retrieve_latency api i) + 2) (Suc i)) = Inr None"
      using 1(1)[OF True s] lt 1(3,4) by simp
    then show ?thesis
      using True s by (subst wait_for_run.simps) simp
  qed
qed

lemma wait_for_run_completed:
  assumes "i \<le> k" and "\<forall>j. i \<le> j \<and> j < k \<longrightarrow> is_pending (retrieve a j)"
      and "retrieve a k = PollStatus ''completed''" and "messages_list a = MessagesValue (Some raw)"
      and "strip raw \<noteq> []"
      and "e + (elapsed_at a k - elapsed_at a i) < t"
  shows "fst (wait_for_run t a e i) = Inr (Some (strip raw))"
  using assms
proof (induction t a e i rule: wait_for_run.induct)
  case (1 timeout api elapsed i)
  have raw: "raw \<noteq> []" using 1(6) by (auto simp add: strip_def)
  show ?case
  proof (cases "i = k")
    case True
    with 1(4,5,6,7) raw show ?thesis
      by (subst wait_for_run.simps) simp
  next
    case False
    with 1(2) have lt: "i < k" by simp
    have "elapsed_at api (Suc i) \<le> elapsed_at api k"
      using lt
    proof (induction k)
      case 0
      then show ?case by simp
    next
      case (Suc k)
      then show ?case by (cases "i = k") auto
    qed
    with 1(7) have True: "elapsed < timeout" by simp
    from lt 1(3) have p: "is_pending (retrieve api i)" by simp
    then obtain status where s: "retrieve api i = PollStatus status"
      "status \<noteq> ''completed''" "status \<notin> set [''failed'', ''cancelled'', ''expired'']"
      by (rule pending_status)
    have "fst (wait_for_run timeout api (elapsed + int (retrieve_latency api i) + 2) (Suc i))
            = Inr (Some (strip raw))"
      using 1(1)[OF True s] lt 1(3,4,5,6,7) by simp
    then show ?thesis
      using True s by (subst wait_for_run.simps) simp
  qed
qed

lemma wait_for_run_some:
  "fst (wait_for_run t a e i) = Inr (Some s) \<Longrightarrow>
   s \<noteq> [] \<and> (\<exists>raw. messages_list a = MessagesValue (Some raw) \<and> s = strip raw)"
proof (induction t a e i rule: wait_for_run.induct)
  case (1 timeout api elapsed i)
  from 1(2) show ?case
    apply (subst (asm) wait_for_run.simps)
    apply (auto split: if_splits run_poll.splits messages_result.splits option.splits dest: 1(1))
    done
qed

lemma wait_for_run_polls:
  "snd (wait_for_run t a e i) \<le> i + nat ((t - e + 1) div 2)"
proof (induction t a e i rule: wait_for_run.induct)
  case (1 timeout api elapsed i)
  show ?case
  proof (cases "elapsed < timeout")
    case False
    then show ?thesis by (subst wait_for_run.simps) simp
  next
    case True
    then have one: "Suc i \<le> i + nat ((timeout - elapsed + 1) div 2)" by simp
    show ?thesis
    proof (cases "is_pending (retrieve api i)")
      case False
      with True one show ?thesis
        by (subst wait_for_run.simps)
           (auto split: run_poll.splits messages_result.splits option.splits)
    next
      case p: True
      then obtain status where s: "retrieve api i = PollStatus status"
        "status \<noteq> ''completed''" "status \<notin> set [''failed'', ''cancelled'', ''expired'']"
        by (rule pending_status)
      have "snd (wait_for_run timeout api (elapsed + int (retrieve_latency api i) + 2) (Suc i))
            \<le> Suc i + nat ((timeout - (elapsed + int (retrieve_latency api i) + 2) + 1) div 2)"
        using 1(1)[OF True s] .
      also have "\<dots> \<le> i + nat ((timeout - elapsed + 1) div 2)"
        using True by simp
      finally show ?thesis
        using True s by (subst wait_for_run.simps) simp
    qed
  qed
qed

lemma retry_value:
  assumes "fst (retry call) = Inr v"
  shows "\<exists>j. call j = Inr v"
proof -
  obtain r k ws where out: "retry call = (r, k, ws)" by (cases "retry call") auto
  have "retry_policy call (r, k, ws)" using retry_policy_retry[of call] out by simp
  hence "(case call k of Inr v \<Rightarrow> r = Inr v | Inl e \<Rightarrow> k = 3 \<and> r = Inl (RetryError (str_of_error e)))"
    by (simp add: retry_policy_def)
  moreover have "r = Inr v" using assms out by simp
  ultimately have "call k = Inr v" by (cases "call k") auto
  thus ?thesis ..
qed

lemma get_summary_at:
  assumes "1 \<le> n" "n \<le> 3"
    and "\<forall>m. 1 \<le> m \<and> m < n \<longrightarrow> isl (fst (get_summary_body timeout (api m) data))"
    and "fst (get_summary_body timeout (api n) data) = Inr v"
  shows "fst (get_summary timeout api data) = Inr v \<and> fst (snd (get_summary timeout api data)) = n"
proof -
  have "isl (fst (get_summary_body timeout (api m) data))" if "1 \<le> m" "m < n" for m
    using that assms(3) by blast
  from retry_at[where call="\<lambda>m. fst (get_summary_body timeout (api m) data)" and n=n and v=v,
      OF assms(1,2) this assms(4)]
  show ?thesis by (simp add: get_summary_def)
qed

text \<open>
  C7: the attempts of \<^verbatim>\<open>get_summary\<close> before the \<open>n\<close>-th raise; at the \<open>n\<close>-th (the
  first, second or third) the run is created and the polls before the \<open>k\<close>-th leave the
  loop waiting. Then \<^verbatim>\<open>get_summary\<close> returns \<^verbatim>\<open>None\<close> at that attempt, without raising
  and without another attempt, if the \<open>k\<close>-th poll gives \<^verbatim>\<open>failed\<close>, \<^verbatim>\<open>cancelled\<close> or
  \<^verbatim>\<open>expired\<close>; if it gives \<^verbatim>\<open>completed\<close> and the assistant's text is \<^verbatim>\<open>None\<close> or has
  only whitespace characters (none at all included); and if the clock has reached the
  timeout at the \<open>k\<close>-th loop test, by sleeps of 2 units and by the time the polls took.
  If instead the \<open>k\<close>-th poll is made before the timeout and gives \<^verbatim>\<open>completed\<close> with a
  text that has a character other than whitespace, the trimmed text is returned. The wait
  makes at most one poll per 2 units of the timeout. Any summary \<^verbatim>\<open>get_summary\<close>
  returns, under any behaviour of the service, is the assistant's text trimmed, is not
  empty, and neither begins nor ends with whitespace.
\<close>

theorem get_summary_none_or_nonempty:
  assumes "1 \<le> n" and "n \<le> 3"
      and "\<forall>m. 1 \<le> m \<and> m < n \<longrightarrow> isl (fst (get_summary_body timeout (api m) data))"
      and "create_raises (api n) = None"
      and "\<forall>j<k. is_pending (retrieve (api n) j)"
  shows "(retrieve (api n) k = PollStatus st \<and> st \<in> set [''failed'', ''cancelled'', ''expired'']
            \<longrightarrow> fst (get_summary timeout api data) = Inr None
              \<and> fst (snd (get_summary timeout api data)) = n)
       \<and> (retrieve (api n) k = PollStatus ''completed'' \<and> messages_list (api n) = MessagesValue v
            \<and> (v = None \<or> (\<exists>s. v = Some s \<and> (\<forall>c \<in> set s. is_space c)))
            \<longrightarrow> fst (get_summary timeout api data) = Inr None
              \<and> fst (snd (get_summary timeout api data)) = n)
       \<and> (timeout \<le> elapsed_at (api n) k
            \<longrightarrow> fst (get_summary timeout api data) = Inr None
              \<and> fst (snd (get_summary timeout api data)) = n)
       \<and> (elapsed_at (api n) k < timeout \<and> retrieve (api n) k = PollStatus ''completed''
            \<and> messages_list (api n) = MessagesValue (Some raw) \<and> (\<exists>c \<in> set raw. \<not> is_space c)
            \<longrightarrow> fst (get_summary timeout api data) = Inr (Some (strip raw))
              \<and> fst (snd (get_summary timeout api data)) = n)
       \<and> snd (get_summary_body timeout (api n) data) \<le> nat ((timeout + 1) div 2)
       \<and> (fst (get_summary timeout' api' data') = Inr (Some s')
            \<longrightarrow> s' \<noteq> [] \<and> strip s' = s' \<and> \<not> is_space (hd s') \<and> \<not> is_space (last s')
              \<and> (\<exists>m raw'. messages_list (api' m) = MessagesValue (Some raw') \<and> s' = strip raw'))"
proof -
  have body: "get_summary_body timeout (api n) data = wait_for_run timeout (api n) 0 0"
    using assms(4) by (simp add: get_summary_body_def)
  have at: "fst (wait_for_run timeout (api n) 0 0) = Inr w
      \<Longrightarrow> fst (get_summary timeout api data) = Inr w \<and> fst (snd (get_summary timeout api data)) = n" for w
    using get_summary_at[OF assms(1,2,3), of w] body by simp
  have pend: "\<forall>j. 0 \<le> j \<and> j < k \<longrightarrow> is_pending (retrieve (api n) j)"
    using assms(5) by simp
  have a: "retrieve (api n) k = PollStatus st \<and> st \<in> set [''failed'', ''cancelled'', ''expired'']
            \<longrightarrow> fst (get_summary timeout api data) = Inr None
              \<and> fst (snd (get_summary timeout api data)) = n"
  proof
    assume h: "retrieve (api n) k = PollStatus st \<and> st \<in> set [''failed'', ''cancelled'', ''expired'']"
    have "fst (wait_for_run timeout (api n) 0 0) = Inr None"
      by (rule wait_for_run_failure[of 0 k, OF _ pend]) (use h in auto)
    thus "fst (get_summary timeout api data) = Inr None
              \<and> fst (snd (get_summary timeout api data)) = n" by (rule at)
  qed
  have b: "retrieve (api n) k = PollStatus ''completed'' \<and> messages_list (api n) = MessagesValue v
            \<and> (v = None \<or> (\<exists>s. v = Some s \<and> (\<forall>c \<in> set s. is_space c)))
            \<longrightarrow> fst (get_summary timeout api data) = Inr None
              \<and> fst (snd (get_summary timeout api data)) = n"
  proof
    assume h: "retrieve (api n) k = PollStatus ''completed'' \<and> messages_list (api n) = MessagesValue v
            \<and> (v = None \<or> (\<exists>s. v = Some s \<and> (\<forall>c \<in> set s. is_space c)))"
    hence v: "v = None \<or> (\<exists>s. v = Some s \<and> strip s = [])" using strip_blank by blast
    have "fst (wait_for_run timeout (api n) 0 0) = Inr None"
      by (rule wait_for_run_blank[of 0 k _ v, OF _ pend _ _ v]) (use h in auto)
    thus "fst (get_summary timeout api data) = Inr None
              \<and> fst (snd (get_summary timeout api data)) = n" by (rule at)
  qed
  have c: "timeout \<le> elapsed_at (api n) k
            \<longrightarrow> fst (get_summary timeout api data) = Inr None
              \<and> fst (snd (get_summary timeout api data)) = n"
  proof
    assume h: "timeout \<le> elapsed_at (api n) k"
    have "fst (wait_for_run timeout (api n) 0 0) = Inr None"
      by (rule wait_for_run_timeout[of 0 k, OF _ pend]) (use h in auto)
    thus "fst (get_summary timeout api data) = Inr None
              \<and> fst (snd (get_summary timeout api data)) = n" by (rule at)
  qed
  have d: "elapsed_at (api n) k < timeout \<and> retrieve (api n) k = PollStatus ''completed''
            \<and> messages_list (api n) = MessagesValue (Some raw) \<and> (\<exists>c \<in> set raw. \<not> is_space c)
            \<longrightarrow> fst (get_summary timeout api data) = Inr (Some (strip raw))
              \<and> fst (snd (get_summary timeout api data)) = n"
  proof
    assume h: "elapsed_at (api n) k < timeout \<and> retrieve (api n) k = PollStatus ''completed''
            \<and> messages_list (api n) = MessagesValue (Some raw) \<and> (\<exists>c \<in> set raw. \<not> is_space c)"
    then obtain c where "c \<in> set raw" "\<not> is_space c" by blast
    hence "c \<in> set (strip raw)" by (rule strip_keeps)
    hence ne: "strip raw \<noteq> []" by auto
    have "fst (wait_for_run timeout (api n) 0 0) = Inr (Some (strip raw))"
      by (rule wait_for_run_completed[of 0 k, OF _ pend _ _ ne]) (use h in auto)
    thus "fst (get_summary timeout api data) = Inr (Some (strip raw))
              \<and> fst (snd (get_summary timeout api data)) = n" by (rule at)
  qed
  have e: "snd (get_summary_body timeout (api n) data) \<le> nat ((timeout + 1) div 2)"
    using wait_for_run_polls[of timeout "api n" 0 0] body by simp
  have f: "fst (get_summary timeout' api' data') = Inr (Some s')
            \<longrightarrow> s' \<noteq> [] \<and> strip s' = s' \<and> \<not> is_space (hd s') \<and> \<not> is_space (last s')
              \<and> (\<exists>m raw'. messages_list (api' m) = MessagesValue (Some raw') \<and> s' = strip raw')"
  proof
    assume "fst (get_summary timeout' api' data') = Inr (Some s')"
    then obtain j where j: "fst (get_summary_body timeout' (api' j) data') = Inr (Some s')"
      unfolding get_summary_def by (blast dest: retry_value)
    then have "fst (wait_for_run timeout' (api' j) 0 0) = Inr (Some s')"
      by (cases "create_raises (api' j)") (simp_all add: get_summary_body_def)
    then obtain raw' where ne: "s' \<noteq> []" and m: "messages_list (api' j) = MessagesValue (Some raw')"
      and s: "s' = strip raw'" by (blast dest: wait_for_run_some)
    from ne s have "strip raw' \<noteq> []" by simp
    from strip_ends[OF this] strip_idem[of raw'] ne m s
    show "s' \<noteq> [] \<and> strip s' = s' \<and> \<not> is_space (hd s') \<and> \<not> is_space (last s')
              \<and> (\<exists>m raw'. messages_list (api' m) = MessagesValue (Some raw') \<and> s' = strip raw')"
      by blast
  qed
  from a b c d e f show ?thesis by blast
qed

text \<open>With the default timeout of 120: a run that cannot be created at the first attempt
  and fails at the third poll of the second; a completion whose text is a space, a
  no-break space and an em space; polls of 58 units each, so that the third loop test
  comes at 120 and the completion waiting there is never read; a run that never
  completes (60 polls): all give \<^verbatim>\<open>None\<close>. A completion with text gives the trimmed
  text.\<close>

theorem get_summary_none_or_nonempty_witness:
  "fst (get_summary 120 (\<lambda>n. if n < 2 then api_refused else api_failed) acme_data) = Inr None
   \<and> fst (snd (get_summary 120 (\<lambda>n. if n < 2 then api_refused else api_failed) acme_data)) = 2
   \<and> fst (get_summary 120 (\<lambda>n. api_blank) acme_data) = Inr None
   \<and> fst (snd (get_summary 120 (\<lambda>n. api_blank) acme_data)) = 1
   \<and> fst (get_summary 120 (\<lambda>n. api_lagging) acme_data) = Inr None
   \<and> get_summary_body 120 api_lagging acme_data = (Inr None, 2)
   \<and> fst (get_summary 120 (\<lambda>n. api_slow) acme_data) = Inr None
   \<and> get_summary_body 120 api_slow acme_data = (Inr None, 60)
   \<and> fst (get_summary 120 (\<lambda>n. api_ok) acme_data) = Inr (Some [0x53, 0x75, 0x6D])
   \<and> strip [0x53, 0x75, 0x6D] = [0x53, 0x75, 0x6D]"
proof -
  let ?late = "\<lambda>n::nat. if n < 2 then api_refused else api_failed"
  have one: "(1::nat) \<le> 1" "(1::nat) \<le> 3" and two: "(1::nat) \<le> 2" "(2::nat) \<le> 3" by simp_all
  have first: "\<forall>m. 1 \<le> m \<and> m < (1::nat) \<longrightarrow> isl (fst (get_summary_body 120 (api m) acme_data))" for api
    by simp
  have l3: "\<forall>m. 1 \<le> m \<and> m < (2::nat) \<longrightarrow> isl (fst (get_summary_body 120 (?late m) acme_data))"
    by (simp add: get_summary_body_def api_refused_def)
  have l4: "create_raises (?late 2) = None" by (simp add: api_failed_def)
  have l5: "\<forall>j<2. is_pending (retrieve (?late 2) j)" by (simp add: api_failed_def)
  have l6: "retrieve (?late 2) 2 = PollStatus ''failed'' \<and> ''failed'' \<in> set [''failed'', ''cancelled'', ''expired'']"
    by (simp add: api_failed_def)
  from get_summary_none_or_nonempty[where api="?late" and n=2 and k=2 and timeout=120 and data=acme_data
      and st="''failed''", OF two l3 l4 l5] l6
  have a: "fst (get_summary 120 ?late acme_data) = Inr None
     \<and> fst (snd (get_summary 120 ?late acme_data)) = 2" by blast
  have b4: "create_raises ((\<lambda>n::nat. api_blank) 1) = None" by (simp add: api_blank_def)
  have b5: "\<forall>j<0. is_pending (retrieve ((\<lambda>n::nat. api_blank) 1) j)" by simp
  have b6: "retrieve ((\<lambda>n::nat. api_blank) 1) 0 = PollStatus ''completed''
      \<and> messages_list ((\<lambda>n::nat. api_blank) 1) = MessagesValue (Some [0x20, 0xA0, 0x2003])
      \<and> (Some [0x20, 0xA0, 0x2003] = None
           \<or> (\<exists>s. Some [0x20, 0xA0, 0x2003] = Some s \<and> (\<forall>c \<in> set s. is_space c)))"
    by (simp add: api_blank_def is_space_def)
  from get_summary_none_or_nonempty[where api="\<lambda>n. api_blank" and n=1 and k=0 and timeout=120
      and data=acme_data and v="Some [0x20, 0xA0, 0x2003]", OF one first b4 b5] b6
  have b: "fst (get_summary 120 (\<lambda>n. api_blank) acme_data) = Inr None
     \<and> fst (snd (get_summary 120 (\<lambda>n. api_blank) acme_data)) = 1" by blast
  have g4: "create_raises ((\<lambda>n::nat. api_lagging) 1) = None" by (simp add: api_lagging_def)
  have g5: "\<forall>j<2. is_pending (retrieve ((\<lambda>n::nat. api_lagging) 1) j)" by (simp add: api_lagging_def)
  have g6: "120 \<le> elapsed_at ((\<lambda>n::nat. api_lagging) 1) 2"
    by (simp add: api_lagging_def eval_nat_numeral)
  from get_summary_none_or_nonempty[where api="\<lambda>n. api_lagging" and n=1 and k=2 and timeout=120
      and data=acme_data, OF one first g4 g5] g6
  have c: "fst (get_summary 120 (\<lambda>n. api_lagging) acme_data) = Inr None" by blast
  have c': "get_summary_body 120 api_lagging acme_data = (Inr None, 2)"
    by (simp add: get_summary_body_def api_lagging_def wait_for_run.simps)
  have s4: "create_raises ((\<lambda>n::nat. api_slow) 1) = None" by (simp add: api_slow_def)
  have s5: "\<forall>j<60. is_pending (retrieve ((\<lambda>n::nat. api_slow) 1) j)" by (simp add: api_slow_def)
  have "elapsed_at api_slow j = 2 * int j" for j
    by (induction j) (simp_all add: api_slow_def)
  hence s6: "120 \<le> elapsed_at ((\<lambda>n::nat. api_slow) 1) 60" by simp
  from get_summary_none_or_nonempty[where api="\<lambda>n. api_slow" and n=1 and k=60 and timeout=120
      and data=acme_data, OF one first s4 s5] s6
  have d: "fst (get_summary 120 (\<lambda>n. api_slow) acme_data) = Inr None" by blast
  have d': "get_summary_body 120 api_slow acme_data = (Inr None, 60)"
    by (simp add: get_summary_body_def api_slow_def wait_for_run.simps)
  have o4: "create_raises ((\<lambda>n::nat. api_ok) 1) = None" by (simp add: api_ok_def)
  have o5: "\<forall>j<1. is_pending (retrieve ((\<lambda>n::nat. api_ok) 1) j)" by (simp add: api_ok_def)
  have o6: "elapsed_at ((\<lambda>n::nat. api_ok) 1) 1 < 120
      \<and> retrieve ((\<lambda>n::nat. api_ok) 1) 1 = PollStatus ''completed''
      \<and> messages_list ((\<lambda>n::nat. api_ok) 1) = MessagesValue (Some [0x20, 0x53, 0x75, 0x6D, 0x0A])
      \<and> (\<exists>c \<in> set [0x20, 0x53, 0x75, 0x6D, 0x0A]. \<not> is_space c)"
    by (simp add: api_ok_def is_space_def)
  have o7: "strip [0x20, 0x53, 0x75, 0x6D, 0x0A] = [0x53, 0x75, 0x6D]"
    by (simp add: strip_def is_space_def)
  note o = get_summary_none_or_nonempty[where api="\<lambda>n. api_ok" and n=1 and k=1 and timeout=120
      and data=acme_data and raw="[0x20, 0x53, 0x75, 0x6D, 0x0A]" and timeout'=120
      and api'="\<lambda>n. api_ok" and data'=acme_data and s'="[0x53, 0x75, 0x6D]", OF one first o4 o5]
  from o o6 have e: "fst (get_summary 120 (\<lambda>n. api_ok) acme_data) = Inr (Some [0x53, 0x75, 0x6D])"
    unfolding o7 by blast
  from o e have f: "strip [0x53, 0x75, 0x6D] = [0x53, 0x75, 0x6D]" by blast
  from a b c c' d d' e f show ?thesis by blast
qed


section \<open>The retry policy of the stages\<close>

lemma update_drive_docs_first_fault:
  "faults s = True # fs \<Longrightarrow>
     update_drive_docs account summary timestamp s = (Inl (Exc ''HttpError''), s\<lparr> faults := fs \<rparr>)"
  by (simp add: update_drive_docs_def get_or_create_account_folder_def
        get_or_create_clients_folder_def and_then_def files_list_def execute_def)

text \<open>
  C8, as the claim states it, fails for the document stage: \<^verbatim>\<open>update_drive_docs\<close> carries
  no retry decorator. When the first API call fails, the stage raises at once, although
  the same call made again succeeds; so its run (one attempt, no delay) does not follow
  the retry policy.
\<close>

theorem document_stage_no_retry:
  "update_drive_docs ''Acme'' ''S'' ''2024-01-01 07:00'' (drive0\<lparr> faults := [True] \<rparr>)
     = (Inl (Exc ''HttpError''), drive0)
   \<and> fst (update_drive_docs ''Acme'' ''S'' ''2024-01-01 07:00'' drive0)
     = Inr (''https://docs.google.com/document/d/2/edit'', ''https://docs.google.com/document/d/3/edit'')
   \<and> \<not> retry_policy
         (\<lambda>n. fst (update_drive_docs ''Acme'' ''S'' ''2024-01-01 07:00''
                     (if n = 1 then drive0\<lparr> faults := [True] \<rparr> else drive0)))
         (fst (update_drive_docs ''Acme'' ''S'' ''2024-01-01 07:00'' (drive0\<lparr> faults := [True] \<rparr>)), 1, [])"
proof -
  have a: "update_drive_docs ''Acme'' ''S'' ''2024-01-01 07:00'' (drive0\<lparr> faults := [True] \<rparr>)
     = (Inl (Exc ''HttpError''), drive0)"
    using update_drive_docs_first_fault[of "drive0\<lparr> faults := [True] \<rparr>" "[]"]
    by (simp add: drive0_def)
  have b: "fst (update_drive_docs ''Acme'' ''S'' ''2024-01-01 07:00'' drive0)
     = Inr (''https://docs.google.com/document/d/2/edit'', ''https://docs.google.com/document/d/3/edit'')"
    by (simp add: update_drive_docs_def get_or_create_account_folder_def
        get_or_create_clients_folder_def get_or_create_doc_def overwrite_doc_def append_to_doc_def
        and_then_def files_list_def files_create_def documents_get_def documents_batchUpdate_def
        execute_def drive0_def query_safe_def matches_def clients_folder_name_def folder_mime_def
        document_mime_def get_doc_url_def digits.simps log_entry_def Let_def)
  from a show ?thesis
    unfolding b by (simp add: retry_policy_def)
qed

text \<open>
  C8, amended: the fetch stage, the summarize stage and the sending of one email follow
  the retry policy (at most 3 attempts, a retry only after an exception, a value or
  \<^verbatim>\<open>None\<close> handed back at once, delays between 4 and 10, an exception to the caller when
  the third attempt raises). The document stage has no retry: when its first API call
  fails it raises to the caller at once.
\<close>

theorem decorated_stages_retry:
  "retry_policy (\<lambda>n. fetch_data_body (db n) tid) (fetch_data db tid)
   \<and> retry_policy (\<lambda>n. fst (get_summary_body timeout (api n) data)) (get_summary timeout api data)
   \<and> retry_policy (\<lambda>n. send_email_body (smtp n) to_email) (send_email smtp to_email)
   \<and> (faults s = True # fs \<longrightarrow>
        update_drive_docs account summary timestamp s = (Inl (Exc ''HttpError''), s\<lparr> faults := fs \<rparr>))"
  unfolding fetch_data_def get_summary_def send_email_def
  using update_drive_docs_first_fault[of s fs account summary timestamp]
  by (simp add: retry_policy_retry)

text \<open>A database that raises twice and then has no row: three attempts, two delays of 4,
  \<^verbatim>\<open>None\<close>. One that always raises: the exception surfaces after the third attempt. One
  that has no row: \<^verbatim>\<open>None\<close> at the first attempt.\<close>

theorem decorated_stages_retry_witness:
  "fetch_data (\<lambda>n. if n < 3 then DbRaise ''timeout'' else DbRows []) ''T-1'' = (Inr None, 3, [4, 4])
   \<and> fetch_data (\<lambda>n. DbRaise ''down'') ''T-1'' = (Inl (RetryError ''down''), 3, [4, 4])
   \<and> fetch_data (\<lambda>n. DbRows []) ''T-1'' = (Inr None, 1, [])
   \<and> retry_policy (\<lambda>n. fetch_data_body (if n < 3 then DbRaise ''timeout'' else DbRows []) ''T-1'')
        (Inr None, 3, [4, 4])
   \<and> send_email (\<lambda>n. if n < 2 then Some ''refused'' else None) ''cs@x'' = (Inr ''EMAIL_SENT_cs@x'', 2, [4])
   \<and> update_drive_docs ''Acme'' ''S'' ''2024-01-01 07:00'' (drive0\<lparr> faults := [True, False] \<rparr>)
       = (Inl (Exc ''HttpError''), drive0\<lparr> faults := [False] \<rparr>)"
proof -
  have a: "fetch_data (\<lambda>n. if n < 3 then DbRaise ''timeout'' else DbRows []) ''T-1'' = (Inr None, 3, [4, 4])"
    by (simp add: fetch_data_def retry_def retry_from.simps fetch_data_body_def fetchone_def wait_exponential_def)
  have b: "fetch_data (\<lambda>n. DbRaise ''down'') ''T-1'' = (Inl (RetryError ''down''), 3, [4, 4])"
    by (simp add: fetch_data_def retry_def retry_from.simps fetch_data_body_def fetchone_def wait_exponential_def)
  have c: "fetch_data (\<lambda>n. DbRows []) ''T-1'' = (Inr None, 1, [])"
    by (simp add: fetch_data_def retry_def retry_from.simps fetch_data_body_def fetchone_def)
  have d: "send_email (\<lambda>n. if n < 2 then Some ''refused'' else None) ''cs@x'' = (Inr ''EMAIL_SENT_cs@x'', 2, [4])"
    by (simp add: send_email_def retry_def retry_from.simps send_email_body_def wait_exponential_def)
  have f: "faults (drive0\<lparr> faults := [True, False] \<rparr>) = True # [False]" by simp
  note t = decorated_stages_retry[of "\<lambda>n. if n < 3 then DbRaise ''timeout'' else DbRows []" "''T-1''"
              _ _ _ _ _ "drive0\<lparr> faults := [True, False] \<rparr>" "[False]" "''Acme''" "''S''" "''2024-01-01 07:00''"]
  from t a have e: "retry_policy (\<lambda>n. fetch_data_body (if n < 3 then DbRaise ''timeout'' else DbRows []) ''T-1'')
        (Inr None, 3, [4, 4])" by simp
  from t f have g: "update_drive_docs ''Acme'' ''S'' ''2024-01-01 07:00'' (drive0\<lparr> faults := [True, False] \<rparr>)
       = (Inl (Exc ''HttpError''), drive0\<lparr> faults := [False] \<rparr>)" by simp
  from a b c d e g show ?thesis by blast
qed


section \<open>The pipeline runner\<close>

text \<open>
  C3: at any attempt and in any state, when the fetch stage returns \<^verbatim>\<open>None\<close>, or the fetch
  stage returns a record and the summarize stage returns \<^verbatim>\<open>None\<close>, \<^verbatim>\<open>process_transcript\<close>
  returns \<^verbatim>\<open>False\<close>; the log gains the start record, the success record of the fetch in
  the second case, and one failure record (\<^verbatim>\<open>FAILED_FETCH\<close> of module fetcher, or
  \<^verbatim>\<open>FAILED_OAI\<close> of module assistant) and no other; the error counter of that module
  goes up by one; nothing else changes, so the queue is as before (no requeue).
\<close>

theorem no_result_fails_without_requeue:
  "(fetcher sg tid = Inr None \<longrightarrow>
      process_transcript sg tid attempt st =
        (False,
         st\<lparr> json_log := json_log st @
                [\<lparr> log_transcript_id = tid, log_status = ''PROCESSING_STARTED'', log_module = None,
                    log_error = None, log_kwargs = [(''attempt'', KInt attempt)] \<rparr>,
                 \<lparr> log_transcript_id = tid, log_status = ''FAILED_FETCH'', log_module = Some ''fetcher'',
                    log_error = None, log_kwargs = [] \<rparr>],
              error_counter := (error_counter st)((''fetcher'', ''no_data'') :=
                                  Suc (error_counter st (''fetcher'', ''no_data''))) \<rparr>))
   \<and> (fetcher sg tid = Inr (Some data) \<and> assistant sg data = Inr None \<longrightarrow>
      process_transcript sg tid attempt st =
        (False,
         st\<lparr> json_log := json_log st @
                [\<lparr> log_transcript_id = tid, log_status = ''PROCESSING_STARTED'', log_module = None,
                    log_error = None, log_kwargs = [(''attempt'', KInt attempt)] \<rparr>,
                 \<lparr> log_transcript_id = tid, log_status = ''FETCH_SUCCESS'', log_module = Some ''fetcher'',
                    log_error = None, log_kwargs = [(''account_name'', KVal (account_name data))] \<rparr>,
                 \<lparr> log_transcript_id = tid, log_status = ''FAILED_OAI'', log_module = Some ''assistant'',
                    log_error = None, log_kwargs = [] \<rparr>],
              error_counter := (error_counter st)((''assistant'', ''no_summary'') :=
                                  Suc (error_counter st (''assistant'', ''no_summary''))) \<rparr>))
   \<and> (fetcher sg tid = Inr None \<or> (fetcher sg tid = Inr (Some data) \<and> assistant sg data = Inr None) \<longrightarrow>
        length (failed_entries (drop (length (json_log st))
                  (json_log (snd (process_transcript sg tid attempt st))))) = 1
      \<and> event_queue (snd (process_transcript sg tid attempt st)) = event_queue st)"
  by (auto simp add: process_transcript_def process_transcript_try_def failed_fetch_def failed_oai_def
        log_structured_def error_counter_inc_def failed_entries_def Let_def)

text \<open>A fetch with no data and a summary that is \<^verbatim>\<open>None\<close>, each with one item waiting in
  the queue.\<close>

theorem no_result_fails_without_requeue_witness:
  "process_transcript sg_no_data ''T-200'' 1 orch1 =
     (False,
      orch1\<lparr> json_log :=
                [\<lparr> log_transcript_id = ''T-200'', log_status = ''PROCESSING_STARTED'', log_module = None,
                    log_error = None, log_kwargs = [(''attempt'', KInt 1)] \<rparr>,
                 \<lparr> log_transcript_id = ''T-200'', log_status = ''FAILED_FETCH'', log_module = Some ''fetcher'',
                    log_error = None, log_kwargs = [] \<rparr>],
              error_counter := (\<lambda>labels. 0)((''fetcher'', ''no_data'') := 1) \<rparr>)
   \<and> fst (process_transcript sg_no_summary ''T-200'' 1 orch1) = False
   \<and> map log_status (json_log (snd (process_transcript sg_no_summary ''T-200'' 1 orch1)))
       = [''PROCESSING_STARTED'', ''FETCH_SUCCESS'', ''FAILED_OAI'']
   \<and> error_counter (snd (process_transcript sg_no_summary ''T-200'' 1 orch1)) (''assistant'', ''no_summary'') = 1
   \<and> items (event_queue (snd (process_transcript sg_no_summary ''T-200'' 1 orch1))) = [''T-1'']"
proof -
  have a: "fetcher sg_no_data ''T-200'' = Inr None" by (simp add: sg_no_data_def)
  have b: "fetcher sg_no_summary ''T-200'' = Inr (Some acme_data) \<and> assistant sg_no_summary acme_data = Inr None"
    by (simp add: sg_no_summary_def sg_ok_def)
  from no_result_fails_without_requeue[where sg=sg_no_data and tid="''T-200''" and attempt=1 and st=orch1] a
  have c: "process_transcript sg_no_data ''T-200'' 1 orch1 =
     (False,
      orch1\<lparr> json_log :=
                [\<lparr> log_transcript_id = ''T-200'', log_status = ''PROCESSING_STARTED'', log_module = None,
                    log_error = None, log_kwargs = [(''attempt'', KInt 1)] \<rparr>,
                 \<lparr> log_transcript_id = ''T-200'', log_status = ''FAILED_FETCH'', log_module = Some ''fetcher'',
                    log_error = None, log_kwargs = [] \<rparr>],
              error_counter := (\<lambda>labels. 0)((''fetcher'', ''no_data'') := 1) \<rparr>)"
    by (simp add: orch1_def orch0_def)
  from no_result_fails_without_requeue[where sg=sg_no_summary and tid="''T-200''" and data=acme_data and attempt=1 and st=orch1] b
  have d: "process_transcript sg_no_summary ''T-200'' 1 orch1 =
        (False,
         orch1\<lparr> json_log := json_log orch1 @
                [\<lparr> log_transcript_id = ''T-200'', log_status = ''PROCESSING_STARTED'', log_module = None,
                    log_error = None, log_kwargs = [(''attempt'', KInt 1)] \<rparr>,
                 \<lparr> log_transcript_id = ''T-200'', log_status = ''FETCH_SUCCESS'', log_module = Some ''fetcher'',
                    log_error = None, log_kwargs = [(''account_name'', KVal (account_name acme_data))] \<rparr>,
                 \<lparr> log_transcript_id = ''T-200'', log_status = ''FAILED_OAI'', log_module = Some ''assistant'',
                    log_error = None, log_kwargs = [] \<rparr>],
              error_counter := (error_counter orch1)((''assistant'', ''no_summary'') :=
                                  Suc (error_counter orch1 (''assistant'', ''no_summary''))) \<rparr>)"
    by simp
  show ?thesis
    unfolding d using c by (simp add: orch1_def orch0_def)
qed


lemma fetch_down: "fetcher sg_down tid = Inl (RetryError ''down'')"
  by (simp add: sg_down_def fetch_data_def retry_def retry_from.simps fetch_data_body_def)

lemma worker_turn_down:
  assumes "running st" and "max_retries st = 3"
      and "event_queue st = \<lparr> items = [''T-1''], unfinished_tasks = 1 \<rparr>"
  shows "run_pipeline_worker_turn sg_down st =
     st\<lparr> json_log := json_log st @
            [\<lparr> log_transcript_id = ''T-1'', log_status = ''PROCESSING_STARTED'', log_module = None,
                log_error = None, log_kwargs = [(''attempt'', KInt 1)] \<rparr>,
             \<lparr> log_transcript_id = ''T-1'', log_status = ''PIPELINE_ERROR'', log_module = None,
                log_error = Some ''down'', log_kwargs = [(''attempt'', KInt 1)] \<rparr>],
          error_counter := (error_counter st)((''orchestrator'', ''general'') :=
                              Suc (error_counter st (''orchestrator'', ''general''))),
          queue_size_gauge := 1 \<rparr>"
  using assms
  by (simp add: run_pipeline_worker_turn_def process_transcript_def process_transcript_try_def
        process_transcript_except_def fetch_down log_structured_def error_counter_inc_def
        should_retry_def requeue_transcript_def put_def task_done_def Let_def)

lemma worker_down_forever:
  assumes "running st" and "max_retries st = 3"
      and "event_queue st = \<lparr> items = [''T-1''], unfinished_tasks = 1 \<rparr>"
  shows "event_queue (run_pipeline_worker (replicate n sg_down) st) = \<lparr> items = [''T-1''], unfinished_tasks = 1 \<rparr>
       \<and> map (\<lambda>e. (log_status e, log_kwargs e)) (json_log (run_pipeline_worker (replicate n sg_down) st)) =
           map (\<lambda>e. (log_status e, log_kwargs e)) (json_log st) @
           concat (replicate n [(''PROCESSING_STARTED'', [(''attempt'', KInt 1)]),
                                (''PIPELINE_ERROR'', [(''attempt'', KInt 1)])])"
  using assms
proof (induction n arbitrary: st)
  case 0
  then show ?case by simp
next
  case (Suc n)
  let ?st = "run_pipeline_worker_turn sg_down st"
  note t = worker_turn_down[OF Suc.prems]
  have "running ?st" "max_retries ?st = 3"
       "event_queue ?st = \<lparr> items = [''T-1''], unfinished_tasks = 1 \<rparr>"
    unfolding t using Suc.prems by simp_all
  from Suc.IH[OF this] show ?case
    by (simp add: t)
qed

text \<open>
  C1 on the code: an exception at attempt 1 (below the bound of 3) puts the identifier
  back on the queue once, and nothing but the identifier. The worker then processes it
  with the default attempt 1 again: with a database that stays down, after any number
  \<open>n\<close> of turns of the worker the item is still queued, every run was logged as attempt
  1, and no final-failure record was written.
\<close>

theorem requeued_item_restarts_at_attempt_one:
  "process_transcript sg_down ''T-1'' 1 orch0 =
     (False,
      orch0\<lparr> event_queue := \<lparr> items = [''T-1''], unfinished_tasks = 1 \<rparr>,
             json_log :=
               [\<lparr> log_transcript_id = ''T-1'', log_status = ''PROCESSING_STARTED'', log_module = None,
                   log_error = None, log_kwargs = [(''attempt'', KInt 1)] \<rparr>,
                \<lparr> log_transcript_id = ''T-1'', log_status = ''PIPELINE_ERROR'', log_module = None,
                   log_error = Some ''down'', log_kwargs = [(''attempt'', KInt 1)] \<rparr>],
             error_counter := (\<lambda>labels. 0)((''orchestrator'', ''general'') := 1) \<rparr>)
   \<and> event_queue (run_pipeline_worker (replicate n sg_down) orch1)
       = \<lparr> items = [''T-1''], unfinished_tasks = 1 \<rparr>
   \<and> map (\<lambda>e. (log_status e, log_kwargs e)) (json_log (run_pipeline_worker (replicate n sg_down) orch1))
       = concat (replicate n [(''PROCESSING_STARTED'', [(''attempt'', KInt 1)]),
                              (''PIPELINE_ERROR'', [(''attempt'', KInt 1)])])"
proof -
  have a: "process_transcript sg_down ''T-1'' 1 orch0 =
     (False,
      orch0\<lparr> event_queue := \<lparr> items = [''T-1''], unfinished_tasks = 1 \<rparr>,
             json_log :=
               [\<lparr> log_transcript_id = ''T-1'', log_status = ''PROCESSING_STARTED'', log_module = None,
                   log_error = None, log_kwargs = [(''attempt'', KInt 1)] \<rparr>,
                \<lparr> log_transcript_id = ''T-1'', log_status = ''PIPELINE_ERROR'', log_module = None,
                   log_error = Some ''down'', log_kwargs = [(''attempt'', KInt 1)] \<rparr>],
             error_counter := (\<lambda>labels. 0)((''orchestrator'', ''general'') := 1) \<rparr>)"
    by (simp add: process_transcript_def process_transcript_try_def
        process_transcript_except_def fetch_down log_structured_def error_counter_inc_def
        should_retry_def requeue_transcript_def put_def orch0_def empty_queue_def Let_def)
  have "running orch1" "max_retries orch1 = 3"
       "event_queue orch1 = \<lparr> items = [''T-1''], unfinished_tasks = 1 \<rparr>" "json_log orch1 = []"
    by (simp_all add: orch1_def orch0_def)
  with worker_down_forever[of orch1 n] a show ?thesis by simp
qed

text \<open>
  C2 on the code: the signal handler clears the orchestrator's flag and leaves the
  listener's flag as it was. After a signal the worker's loop has ended and the
  listener's has not: a poll that is due still puts a new identifier on the queue, the
  worker takes nothing off it, and \<^verbatim>\<open>stop\<close>, joining a queue with unfinished tasks that
  nothing will process, does not return.
\<close>

theorem signal_does_not_stop_the_poller:
  "listener_running (listener (step Signal sys)) = listener_running (listener sys)
   \<and> \<not> running (orchestrator (run [Signal] sys0))
   \<and> listener_running (listener (run [Signal] sys0))
   \<and> items (event_queue (orchestrator
        (run [Signal, ListenerTurn \<lparr> date = 100, time_of_day = 25200000000 \<rparr> (PollRows [id_row ''T-9'']),
              WorkerTurn sg_ok] sys0))) = [''A'', ''B'', ''T-9'']
   \<and> stop (orchestrator
        (run [Signal, ListenerTurn \<lparr> date = 100, time_of_day = 25200000000 \<rparr> (PollRows [id_row ''T-9'']),
              WorkerTurn sg_ok] sys0)) = None"
  by (simp add: sys0_def orch0_def listener0_def signal_handler_def start_listening_turn_def
        dt_less_def id_row_def row_get_def put_def run_pipeline_worker_turn_def stop_def add_days_def)


section \<open>The document stage\<close>

































end
